theory Spec2Isabelle
  imports Complex_Main "HOL-Library.AList"
begin

section \<open>kube-opex-analytics backend: usage normalisation and cost analytics\<close>

text \<open>
  A shallow embedding of \<^verbatim>\<open>backend.py\<close>. Python dictionaries are association lists in
  insertion order (\<open>AList.update\<close> overwrites in place and appends a new key, as a Python
  \<^verbatim>\<open>dict\<close> does), exceptions are values of \<open>error\<close>, attributes that an object may lack
  (\<^verbatim>\<open>hasattr\<close>) are options, and the external services (the cluster API, the round-robin
  database, the clock, the Prometheus gauges) are parameters or logs of the calls made.

  Numbers. Python floats are IEEE binary64 values. The quantity decoders perform exactly
  one float multiplication of a float literal by an integer; that multiplication is
  modelled bit for bit (\<open>nearest64\<close>, round to nearest, ties to even), and its result is
  the real number the double denotes. All later float arithmetic (sums, ratios, decimal
  rounding) is idealised to exact arithmetic on \<open>real\<close>. Strings are ASCII.
\<close>

subsection \<open>Python exceptions\<close>

datatype error =
    ValueError          \<comment> \<open>\<^verbatim>\<open>int()\<close> of a string that is not an integer literal\<close>
  | OverflowError       \<comment> \<open>an \<^verbatim>\<open>int\<close> too large to convert to \<^verbatim>\<open>float\<close>\<close>
  | KeyError            \<comment> \<open>subscript of a \<^verbatim>\<open>dict\<close> with a missing key\<close>
  | ZeroDivisionError   \<comment> \<open>float division by zero\<close>
  | FloatInfinity       \<comment> \<open>not an exception: the float product is \<^verbatim>\<open>inf\<close>, which \<open>real\<close> lacks\<close>

subsection \<open>Strings: slices and \<^verbatim>\<open>int()\<close>\<close>

definition py_bound :: "nat \<Rightarrow> int \<Rightarrow> nat" where
  \<comment> \<open>a slice bound on a sequence of length \<open>n\<close>: negative bounds count from the end\<close>
  "py_bound n i = (if i < 0 then nat (max (int n + i) 0) else min (nat i) n)"

definition py_slice :: "string \<Rightarrow> int \<Rightarrow> int \<Rightarrow> string" where
  \<comment> \<open>\<^verbatim>\<open>s[lo:hi]\<close>\<close>
  "py_slice s lo hi =
     (let l = py_bound (length s) lo; h = py_bound (length s) hi in take (h - l) (drop l s))"

definition py_slice_from :: "string \<Rightarrow> int \<Rightarrow> string" where
  \<comment> \<open>\<^verbatim>\<open>s[lo:]\<close>\<close>
  "py_slice_from s lo = drop (py_bound (length s) lo) s"

definition endswith :: "string \<Rightarrow> string \<Rightarrow> bool" where
  "endswith s suffix = (length suffix \<le> length s \<and> drop (length s - length suffix) s = suffix)"

definition is_space :: "char \<Rightarrow> bool" where
  \<comment> \<open>the ASCII white space that \<^verbatim>\<open>int()\<close> strips: TAB, LF, VT, FF, CR and the blank\<close>
  "is_space c = (let k = (of_char c :: nat) in (9 \<le> k \<and> k \<le> 13) \<or> k = 32)"

definition is_digit :: "char \<Rightarrow> bool" where
  "is_digit c = (let k = (of_char c :: nat) in 48 \<le> k \<and> k \<le> 57)"

definition digit_val :: "char \<Rightarrow> int" where
  "digit_val c = int (of_char c) - 48"

definition strip :: "string \<Rightarrow> string" where
  "strip s = rev (dropWhile is_space (rev (dropWhile is_space s)))"

fun digits_acc :: "int \<Rightarrow> string \<Rightarrow> int option" where
  \<comment> \<open>the digits after the first one; a single underscore may stand between two digits\<close>
  "digits_acc a [] = Some a"
| "digits_acc a [c] = (if is_digit c then Some (10 * a + digit_val c) else None)"
| "digits_acc a (c # d # ds) =
     (if is_digit c then digits_acc (10 * a + digit_val c) (d # ds)
      else if c = CHR ''_'' \<and> is_digit d then digits_acc (10 * a + digit_val d) ds
      else None)"

definition unsigned_int :: "string \<Rightarrow> int option" where
  "unsigned_int s =
     (case s of [] \<Rightarrow> None
      | d # ds \<Rightarrow> if is_digit d then digits_acc (digit_val d) ds else None)"

definition py_int :: "string \<Rightarrow> int option" where
  \<comment> \<open>\<^verbatim>\<open>int(s)\<close> in base ten; \<open>None\<close> is the \<^verbatim>\<open>ValueError\<close>\<close>
  "py_int s =
     (case strip s of [] \<Rightarrow> None
      | c # cs \<Rightarrow>
          if c = CHR ''-'' then map_option uminus (unsigned_int cs)
          else if c = CHR ''+'' then unsigned_int cs
          else unsigned_int (c # cs))"

subsection \<open>IEEE binary64: rounding to the nearest double\<close>

fun bitlen :: "nat \<Rightarrow> nat" where
  "bitlen n = (if n = 0 then 0 else Suc (bitlen (n div 2)))"

declare bitlen.simps [simp del]

definition rne_div :: "nat \<Rightarrow> nat \<Rightarrow> nat" where
  \<comment> \<open>\<open>a / b\<close> rounded to the nearest integer, a tie to the even one\<close>
  "rne_div a b =
     (let q = a div b; r = a mod b in
      if 2 * r < b then q else if b < 2 * r then q + 1 else if even q then q else q + 1)"

definition scaled :: "nat \<Rightarrow> nat \<Rightarrow> int \<Rightarrow> nat \<times> nat" where
  \<comment> \<open>numerator and denominator of \<open>a / b * 2 ^ k\<close>\<close>
  "scaled a b k = (if 0 \<le> k then (a * 2 ^ nat k, b) else (a, b * 2 ^ nat (- k)))"

definition nearest64 :: "nat \<Rightarrow> nat \<Rightarrow> (nat \<times> int) option" where
  \<comment> \<open>the double nearest to \<open>a / b\<close> (\<open>b > 0\<close>), as \<open>Some (m, e)\<close> for \<open>m * 2 ^ e\<close> with
      \<open>m \<le> 2 ^ 53\<close>; the quantum is never below \<open>2 ^ -1074\<close> (subnormals); \<open>None\<close> when
      the rounded value is beyond the largest finite double\<close>
  "nearest64 a b =
     (if a = 0 then Some (0, 0)
      else
        let d = int (bitlen a) - int (bitlen b);
            k0 = 53 - d;
            k1 = (case scaled a b k0 of (x, y) \<Rightarrow> if 2 ^ 53 * y \<le> x then k0 - 1 else k0);
            k = min k1 1074;
            m = (case scaled a b k of (x, y) \<Rightarrow> rne_div x y)
        in if 971 < - k \<or> (- k = 971 \<and> 2 ^ 53 \<le> m) then None else Some (m, - k))"

type_synonym binary64 = "int \<times> int"
  \<comment> \<open>a finite double: signed significand and exponent\<close>

definition b64_val :: "binary64 \<Rightarrow> real" where
  "b64_val x = (case x of (m, e) \<Rightarrow>
     if 0 \<le> e then real_of_int m * 2 ^ nat e else real_of_int m / 2 ^ nat (- e))"

definition round64 :: "int \<Rightarrow> nat \<Rightarrow> binary64 option" where
  \<comment> \<open>the double nearest to the rational \<open>p / q\<close>\<close>
  "round64 p q = map_option (\<lambda>(m, e). (sgn p * int m, e)) (nearest64 (nat \<bar>p\<bar>) q)"

definition float_literal :: "nat \<Rightarrow> nat \<Rightarrow> binary64" where
  \<comment> \<open>a decimal literal of the source, \<open>a / b\<close> exactly, as Python reads it\<close>
  "float_literal a b = (case round64 (int a) b of Some x \<Rightarrow> x | None \<Rightarrow> (0, 0))"

definition float_of_int :: "int \<Rightarrow> error + binary64" where
  \<comment> \<open>the implicit conversion of the \<^verbatim>\<open>int\<close> operand of \<^verbatim>\<open>float * int\<close>\<close>
  "float_of_int n = (case round64 n 1 of None \<Rightarrow> Inl OverflowError | Some x \<Rightarrow> Inr x)"

definition float_mul :: "binary64 \<Rightarrow> binary64 \<Rightarrow> binary64 option" where
  \<comment> \<open>the exact product, rounded once; \<open>None\<close> is \<^verbatim>\<open>inf\<close>\<close>
  "float_mul x y =
     (case (x, y) of ((m1, e1), (m2, e2)) \<Rightarrow>
        if 0 \<le> e1 + e2 then round64 (m1 * m2 * 2 ^ nat (e1 + e2)) 1
        else round64 (m1 * m2) (2 ^ nat (- (e1 + e2))))"

definition float_times_int :: "binary64 \<Rightarrow> int \<Rightarrow> error + real" where
  \<comment> \<open>\<^verbatim>\<open>c * n\<close> for a float \<open>c\<close> and an \<^verbatim>\<open>int\<close> \<open>n\<close>\<close>
  "float_times_int c n =
     (case float_of_int n of
        Inl e \<Rightarrow> Inl e
      | Inr x \<Rightarrow> (case float_mul c x of None \<Rightarrow> Inl FloatInfinity | Some y \<Rightarrow> Inr (b64_val y)))"

subsection \<open>Quantity decoders\<close>

definition int_value :: "string \<Rightarrow> error + int" where
  "int_value s = (case py_int s of None \<Rightarrow> Inl ValueError | Some n \<Rightarrow> Inr n)"

definition scale_int :: "binary64 \<Rightarrow> string \<Rightarrow> error + real" where
  \<comment> \<open>\<^verbatim>\<open>c * int(cap_value)\<close>\<close>
  "scale_int c s = (case int_value s of Inl e \<Rightarrow> Inl e | Inr n \<Rightarrow> float_times_int c n)"

definition decode_memory_capacity :: "string \<Rightarrow> error + real" where
  "decode_memory_capacity cap_input =
     (let data_length = int (length cap_input);
          (cap_unit, cap_value) =
             (if endswith cap_input ''i''
              then (py_slice_from cap_input (data_length - 2), py_slice cap_input 0 (data_length - 2))
              else ('''', cap_input))
      in
        if cap_unit = '''' then map_sum id real_of_int (int_value cap_value)
        else if cap_unit = ''Ki'' then scale_int (float_literal (10 ^ 3) 1) cap_value
        else if cap_unit = ''Mi'' then scale_int (float_literal (10 ^ 6) 1) cap_value
        else if cap_unit = ''Gi'' then scale_int (float_literal (10 ^ 9) 1) cap_value
        else if cap_unit = ''Ti'' then scale_int (float_literal (10 ^ 12) 1) cap_value
        else if cap_unit = ''Pi'' then scale_int (float_literal (10 ^ 15) 1) cap_value
        else if cap_unit = ''Ei'' then scale_int (float_literal (10 ^ 18) 1) cap_value
        else Inr 0)"

definition decode_cpu_capacity :: "string \<Rightarrow> error + real" where
  "decode_cpu_capacity cap_input =
     (let data_length = int (length cap_input);
          cap_unit = py_slice_from cap_input (data_length - 1);
          cap_value = py_slice cap_input 0 (data_length - 1)
      in
        if cap_unit = ''n'' then scale_int (float_literal 1 (10 ^ 9)) cap_value
        else if cap_unit = ''u'' then scale_int (float_literal 1 (10 ^ 6)) cap_value
        else if cap_unit = ''m'' then scale_int (float_literal 1 (10 ^ 3)) cap_value
        else map_sum id real_of_int (int_value cap_input))"

subsection \<open>Decimal rounding and configuration constants\<close>

definition round_half_even :: "real \<Rightarrow> int" where
  "round_half_even x =
     (let f = \<lfloor>x\<rfloor>; d = x - of_int f in
      if d < 1 / 2 then f else if 1 / 2 < d then f + 1 else if even f then f else f + 1)"

definition py_round :: "real \<Rightarrow> nat \<Rightarrow> real" where
  \<comment> \<open>\<^verbatim>\<open>round(x, ndigits)\<close>\<close>
  "py_round x ndigits = of_int (round_half_even (x * 10 ^ ndigits)) / 10 ^ ndigits"

definition py_trunc :: "real \<Rightarrow> int" where
  \<comment> \<open>\<^verbatim>\<open>int(x)\<close> of a float: towards zero\<close>
  "py_trunc x = (if 0 \<le> x then \<lfloor>x\<rfloor> else \<lceil>x\<rceil>)"

definition db_round_decimals :: nat where
  "db_round_decimals = 6"


definition db_billing_hourly_rate :: string where
  "db_billing_hourly_rate = ''.billing-hourly-rate''"

record Config =
  cost_model :: string
  billing_hourly_rate :: real
  enable_debug :: bool


datatype RrdPeriod =
    PERIOD_5_MINS_SEC | PERIOD_1_HOUR_SEC | PERIOD_1_DAY_SEC
  | PERIOD_7_DAYS_SEC | PERIOD_14_DAYS_SEC | PERIOD_YEAR_SEC

fun period_sec :: "RrdPeriod \<Rightarrow> int" where
  "period_sec PERIOD_5_MINS_SEC = 300"
| "period_sec PERIOD_1_HOUR_SEC = 3600"
| "period_sec PERIOD_1_DAY_SEC = 86400"
| "period_sec PERIOD_7_DAYS_SEC = 604800"
| "period_sec PERIOD_14_DAYS_SEC = 1209600"
| "period_sec PERIOD_YEAR_SEC = 31968000"

datatype ResUsageType = CPU | MEMORY

subsection \<open>The snapshot: nodes, pods, namespace usage\<close>

record Condition =
  type :: string
  status :: string
  message :: string

record Pod =
  name :: string
  namespace :: string
  id' :: string
  nodeName :: "string option"
  phase :: string
  state :: string
  cpuUsage :: "real option"   \<comment> \<open>set by \<^verbatim>\<open>extract_pod_metrics\<close> only (\<^verbatim>\<open>hasattr\<close>)\<close>
  memUsage :: "real option"

definition new_Pod :: Pod where
  "new_Pod = \<lparr>name = [], namespace = [], id' = [], nodeName = Some [], phase = [],
     state = ''PodNotScheduled'', cpuUsage = None, memUsage = None\<rparr>"

record Node =
  id' :: string
  name :: string
  state :: string
  message :: string
  cpuCapacity :: real
  cpuAllocatable :: real
  cpuUsage :: real
  memCapacity :: real
  memAllocatable :: real
  memUsage :: real
  containerRuntime :: string
  podsRunning :: "Pod list"
  podsNotRunning :: "Pod list"

definition new_Node :: Node where
  "new_Node = \<lparr>id' = [], name = [], state = [], message = [], cpuCapacity = 0,
     cpuAllocatable = 0, cpuUsage = 0, memCapacity = 0, memAllocatable = 0, memUsage = 0,
     containerRuntime = [], podsRunning = [], podsNotRunning = []\<rparr>"

record ResourceUsage =
  cpuUsage :: real
  memUsage :: real

record K8sUsage =
  nodes :: "(string \<times> Node) list"
  pods :: "(string \<times> Pod) list"
  nsResUsage :: "(string \<times> ResourceUsage) list"
  popupContent :: string
  nodeHtmlList :: string
  cpuUsedByPods :: real
  memUsedByPods :: real
  cpuCapacity :: real
  memCapacity :: real
  cpuAllocatable :: real
  memAllocatable :: real

definition new_K8sUsage :: K8sUsage where
  "new_K8sUsage = \<lparr>nodes = [], pods = [], nsResUsage = [], popupContent = [],
     nodeHtmlList = [], cpuUsedByPods = 0, memUsedByPods = 0, cpuCapacity = 0,
     memCapacity = 0, cpuAllocatable = 0, memAllocatable = 0\<rparr>"

text \<open>
  The listings of the cluster API, after \<^verbatim>\<open>json.loads\<close>: one record per item, holding the
  fields the code reads. A listing is \<open>None\<close> when the request failed.
\<close>

record NodeItem =
  metadata_name :: string
  metadata_uid :: string
  capacity_cpu :: string
  allocatable_cpu :: string
  capacity_memory :: string
  allocatable_memory :: string
  containerRuntimeVersion :: string
  conditions :: "Condition list"

record NodeMetricsItem =
  metadata_name :: string
  usage_cpu :: string
  usage_memory :: string

record PodItem =
  metadata_name :: string
  metadata_namespace :: string
  metadata_uid :: string
  status_phase :: string
  status_conditions :: "Condition list option"   \<comment> \<open>\<^verbatim>\<open>'conditions' in item['status']\<close>\<close>
  spec_nodeName :: "string option"

record PodMetricsItem =
  metadata_name :: string
  metadata_namespace :: string
  containers :: "(string \<times> string) list"   \<comment> \<open>\<^verbatim>\<open>usage.cpu\<close> and \<^verbatim>\<open>usage.memory\<close> of each container\<close>


fun node_conditions :: "Node \<Rightarrow> Condition list \<Rightarrow> Node" where
  "node_conditions node [] = node"
| "node_conditions node (cond # conds) =
     (let node = node\<lparr>Node.message := Condition.message cond\<rparr> in
      if type cond = ''Ready'' \<and> status cond = ''True'' then node\<lparr>Node.state := ''Ready''\<rparr>
      else if type cond = ''KernelDeadlock'' \<and> status cond = ''True''
        then node\<lparr>Node.state := ''KernelDeadlock''\<rparr>
      else if type cond = ''NetworkUnavailable'' \<and> status cond = ''True''
        then node\<lparr>Node.state := ''NetworkUnavailable''\<rparr>
      else if type cond = ''OutOfDisk'' \<and> status cond = ''True''
        then node\<lparr>Node.state := ''OutOfDisk''\<rparr>
      else if type cond = ''MemoryPressure'' \<and> status cond = ''True''
        then node\<lparr>Node.state := ''MemoryPressure''\<rparr>
      else if type cond = ''DiskPressure'' \<and> status cond = ''True''
        then node\<lparr>Node.state := ''DiskPressure''\<rparr>
      else node_conditions node conds)"

definition build_node :: "NodeItem \<Rightarrow> error + Node" where
  \<comment> \<open>the body of the loop of \<^verbatim>\<open>extract_nodes\<close>, up to the store into \<^verbatim>\<open>self.nodes\<close>\<close>
  "build_node item =
     (let node = new_Node\<lparr>podsRunning := [], podsNotRunning := [],
                   Node.name := NodeItem.metadata_name item,
                   Node.id' := NodeItem.metadata_uid item\<rparr> in
      case decode_cpu_capacity (capacity_cpu item) of Inl e \<Rightarrow> Inl e | Inr cc \<Rightarrow>
     (case decode_cpu_capacity (allocatable_cpu item) of Inl e \<Rightarrow> Inl e | Inr ca \<Rightarrow>
     (case decode_memory_capacity (capacity_memory item) of Inl e \<Rightarrow> Inl e | Inr mc \<Rightarrow>
     (case decode_memory_capacity (allocatable_memory item) of Inl e \<Rightarrow> Inl e | Inr ma \<Rightarrow>
        Inr (node_conditions
               (node\<lparr>Node.cpuCapacity := cc, Node.cpuAllocatable := ca, Node.memCapacity := mc,
                  Node.memAllocatable := ma,
                  containerRuntime := containerRuntimeVersion item\<rparr>)
               (conditions item))))))"

fun extract_nodes_items :: "K8sUsage \<Rightarrow> NodeItem list \<Rightarrow> error option \<times> K8sUsage" where
  "extract_nodes_items s [] = (None, s)"
| "extract_nodes_items s (item # items) =
     (case build_node item of
        Inl e \<Rightarrow> (Some e, s)
      | Inr node \<Rightarrow>
          extract_nodes_items (s\<lparr>nodes := AList.update (Node.name node) node (nodes s)\<rparr>) items)"

definition extract_nodes :: "K8sUsage \<Rightarrow> NodeItem list option \<Rightarrow> error option \<times> K8sUsage" where
  \<comment> \<open>the first component is the exception that left the function, if any; the second the
      object as the function left it\<close>
  "extract_nodes s data = (case data of None \<Rightarrow> (None, s) | Some items \<Rightarrow> extract_nodes_items s items)"










subsection \<open>Consolidation\<close>

definition consolidate_pod :: "K8sUsage \<Rightarrow> Pod \<Rightarrow> error option \<times> K8sUsage" where
  \<comment> \<open>the body of the loop over \<^verbatim>\<open>self.pods.values()\<close>, statement by statement\<close>
  "consolidate_pod s pod =
     (case (Pod.cpuUsage pod, Pod.memUsage pod) of
        (Some c, Some m) \<Rightarrow>
          (let s = s\<lparr>cpuUsedByPods := cpuUsedByPods s + c\<rparr> in
           case map_of (nsResUsage s) (namespace pod) of
             None \<Rightarrow> (Some KeyError, s)
           | Some u \<Rightarrow>
              (let u = u\<lparr>ResourceUsage.cpuUsage := ResourceUsage.cpuUsage u + c\<rparr>;
                   u = u\<lparr>ResourceUsage.memUsage := ResourceUsage.memUsage u + m\<rparr>;
                   s = s\<lparr>nsResUsage := AList.update (namespace pod) u (nsResUsage s)\<rparr>;
                   s = s\<lparr>memUsedByPods := memUsedByPods s + m\<rparr>
               in case nodeName pod of
                    None \<Rightarrow> (Some KeyError, s)
                  | Some nn \<Rightarrow>
                     (case map_of (nodes s) nn of
                        None \<Rightarrow> (Some KeyError, s)
                      | Some node \<Rightarrow>
                          (None, s\<lparr>nodes := AList.update nn
                                    (node\<lparr>podsRunning := podsRunning node @ [pod]\<rparr>) (nodes s)\<rparr>))))
      | _ \<Rightarrow> (None, s))"

fun consolidate_pods :: "K8sUsage \<Rightarrow> Pod list \<Rightarrow> error option \<times> K8sUsage" where
  "consolidate_pods s [] = (None, s)"
| "consolidate_pods s (pod # ps) =
     (case consolidate_pod s pod of
        (Some e, s') \<Rightarrow> (Some e, s')
      | (None, s') \<Rightarrow> consolidate_pods s' ps)"

definition consolidate_ns_usage :: "K8sUsage \<Rightarrow> error option \<times> K8sUsage" where
  "consolidate_ns_usage s =
     (let s = s\<lparr>cpuUsedByPods := 0, memUsedByPods := 0\<rparr> in
      case consolidate_pods s (map snd (pods s)) of
        (Some e, s) \<Rightarrow> (Some e, s)
      | (None, s) \<Rightarrow>
         (let s = fold (\<lambda>node s. s\<lparr>K8sUsage.cpuCapacity := K8sUsage.cpuCapacity s + Node.cpuCapacity node,
                                   K8sUsage.memCapacity := K8sUsage.memCapacity s + Node.memCapacity node\<rparr>)
                    (map snd (nodes s)) s;
              s = fold (\<lambda>node s. s\<lparr>K8sUsage.cpuAllocatable := K8sUsage.cpuAllocatable s + Node.cpuAllocatable node,
                                   K8sUsage.memAllocatable := K8sUsage.memAllocatable s + Node.memAllocatable node\<rparr>)
                    (map snd (nodes s)) s
          in (None, s)))"

subsection \<open>The sampler\<close>

datatype io_event =
    WriteNodesFile "(string \<times> Node) list"   \<comment> \<open>\<^verbatim>\<open>dump_nodes\<close>: the file \<^verbatim>\<open>nodes.json\<close>\<close>
  | RrdUpdate string int real real            \<comment> \<open>\<^verbatim>\<open>rrdtool.update\<close> of a database: time, cpu, mem\<close>

definition add_sample :: "string \<Rightarrow> int \<Rightarrow> real \<Rightarrow> real \<Rightarrow> io_event" where
  \<comment> \<open>\<^verbatim>\<open>Rrd(dbname).add_sample\<close>; a failing update is logged by the source and goes on\<close>
  "add_sample dbname timestamp_epoch cpu_usage mem_usage =
     RrdUpdate dbname timestamp_epoch (py_round cpu_usage db_round_decimals)
       (py_round mem_usage db_round_decimals)"








subsection \<open>Startup\<close>



subsection \<open>Trend data\<close>

record rrd_result =
  \<comment> \<open>of \<^verbatim>\<open>rrdtool.fetch\<close>: \<^verbatim>\<open>(start, end, step)\<close> and the rows, a row one value per data
      source, \<open>None\<close> where the database has no sample\<close>
  start_ts_out :: int
  step_out :: int
  rows :: "real option list list"

type_synonym rrd_fetch = "string \<Rightarrow> int \<Rightarrow> int \<Rightarrow> int \<Rightarrow> rrd_result"
  \<comment> \<open>database, resolution, start, end\<close>

datatype effect =
    Fetch string int int int
  | GaugeSet string ResUsageType real   \<comment> \<open>\<^verbatim>\<open>PROMETHEUS_HOURLY_USAGE_EXPORTER\<close>\<close>

type_synonym trend_rows = "(string \<times> int \<times> real) list"
  \<comment> \<open>the records \<^verbatim>\<open>{"name", "dateUTC", "usage"}\<close>; joined by commas in the source, so the
      empty list is the empty string\<close>

record trend_acc =
  rrd_current_ts :: int
  res_usage_cpu :: trend_rows
  res_usage_mem :: trend_rows
  sum_res_usage_cpu :: real
  sum_res_usage_mem :: real
  gauges :: "effect list"

definition trend_cdp :: "string \<Rightarrow> int \<Rightarrow> int \<Rightarrow> real option list \<Rightarrow> trend_acc \<Rightarrow> trend_acc" where
  \<comment> \<open>one row; \<^verbatim>\<open>float(None)\<close> raises inside the \<^verbatim>\<open>try\<close>, whose handler passes\<close>
  "trend_cdp dbname now_epoch_utc step cdp a =
     (let ts = rrd_current_ts a + step; a = a\<lparr>rrd_current_ts := ts\<rparr> in
      if length cdp = 2 then
        (case (cdp ! 0, cdp ! 1) of
           (Some c, Some m) \<Rightarrow>
             (let current_cpu_usage = py_round (100 * c) db_round_decimals / 100;
                  current_mem_usage = py_round (100 * m) db_round_decimals / 100
              in a\<lparr>res_usage_cpu := res_usage_cpu a @ [(dbname, ts, current_cpu_usage)],
                    res_usage_mem := res_usage_mem a @ [(dbname, ts, current_mem_usage)],
                    sum_res_usage_cpu := sum_res_usage_cpu a + current_cpu_usage,
                    sum_res_usage_mem := sum_res_usage_mem a + current_mem_usage,
                    gauges := gauges a @
                      (if ts = py_trunc (real_of_int now_epoch_utc / 3600) * 3600
                       then [GaugeSet dbname CPU current_cpu_usage,
                             GaugeSet dbname MEMORY current_mem_usage]
                       else [])\<rparr>)
         | _ \<Rightarrow> a)
      else a)"

definition trend_pass :: "rrd_fetch \<Rightarrow> int \<Rightarrow> string \<Rightarrow> RrdPeriod \<Rightarrow> int \<Rightarrow> effect \<times> trend_acc" where
  \<comment> \<open>the query and the loop over its rows, for one resolution\<close>
  "trend_pass fetch now_epoch_utc dbname period step =
     (let rrd_end_ts_in = py_trunc (real_of_int (now_epoch_utc * step) / real_of_int step);
          rrd_start_ts_in = rrd_end_ts_in - period_sec period;
          res = fetch dbname step rrd_start_ts_in rrd_end_ts_in
      in (Fetch dbname step rrd_start_ts_in rrd_end_ts_in,
          fold (trend_cdp dbname now_epoch_utc (step_out res)) (rows res)
            \<lparr>rrd_current_ts = start_ts_out res, res_usage_cpu = [], res_usage_mem = [],
              sum_res_usage_cpu = 0, sum_res_usage_mem = 0, gauges = []\<rparr>))"


subsection \<open>Histogram data and the cost models\<close>

type_synonym usage_by_date = "(string \<times> real) list"
  \<comment> \<open>date group to summed usage\<close>

type_synonym usage_per_type_date = "(ResUsageType \<times> (string \<times> (string \<times> real) list) list) list"
  \<comment> \<open>resource type, then date group, then database, to usage\<close>

type_synonym sum_usage_per_type_date = "(ResUsageType \<times> (string \<times> real) list) list"

definition res_index :: "ResUsageType \<Rightarrow> 'a \<times> 'a \<Rightarrow> 'a" where
  \<comment> \<open>the pair returned by \<^verbatim>\<open>dump_histogram_data\<close>, subscripted by the resource type\<close>
  "res_index res p = (case res of CPU \<Rightarrow> fst p | MEMORY \<Rightarrow> snd p)"

definition get_default :: "('k \<times> 'v) list \<Rightarrow> 'k \<Rightarrow> 'v \<Rightarrow> 'v" where
  "get_default d k v = (case map_of d k of None \<Rightarrow> v | Some x \<Rightarrow> x)"

definition collect_usage ::
  "string \<Rightarrow> ResUsageType \<Rightarrow> string \<times> real
     \<Rightarrow> usage_per_type_date \<times> sum_usage_per_type_date
     \<Rightarrow> usage_per_type_date \<times> sum_usage_per_type_date" where
  \<comment> \<open>the body of the innermost loop of the first half of \<^verbatim>\<open>dump_histogram_analytics\<close>\<close>
  "collect_usage db res item st =
     (case item of (date_key, usage_value) \<Rightarrow>
      case st of (usage, sum_usage) \<Rightarrow>
        if usage_value > 0 then
          (let bundle = get_default usage res [];
               db_usage_item = get_default bundle date_key [];
               usage' = AList.update res
                        (AList.update date_key (AList.update db usage_value db_usage_item) bundle) usage
           in if db \<noteq> db_billing_hourly_rate then
                (let sbundle = get_default sum_usage res []
                 in (usage', AList.update res
                             (AList.update date_key (get_default sbundle date_key 0 + usage_value) sbundle)
                             sum_usage))
              else (usage', sum_usage))
        else st)"

definition collect_all ::
  "(string \<Rightarrow> usage_by_date \<times> usage_by_date) \<Rightarrow> string list
     \<Rightarrow> usage_per_type_date \<times> sum_usage_per_type_date" where
  \<comment> \<open>the first argument is \<^verbatim>\<open>Rrd(db).dump_histogram_data(period)\<close>\<close>
  "collect_all histogram_data dbfiles =
     fold (\<lambda>db. fold (\<lambda>res. fold (collect_usage db res) (res_index res (histogram_data db)))
                  [CPU, MEMORY])
       dbfiles ([], [])"

definition usage_cost_of ::
  "Config \<Rightarrow> sum_usage_per_type_date \<Rightarrow> ResUsageType \<Rightarrow> string \<Rightarrow> (string \<times> real) list \<Rightarrow> real
     \<Rightarrow> error + real" where
  \<comment> \<open>\<^verbatim>\<open>usage_cost\<close> for one database of one date group; \<open>db_usage_item\<close> is
      \<^verbatim>\<open>usage_per_type_date[res][date_key]\<close>, the dictionary being iterated\<close>
  "usage_cost_of cfg sum_usage res date_key db_usage_item usage_value =
     (if cost_model cfg = ''RATIO'' \<or> cost_model cfg = ''CHARGE_BACK'' then
        (case map_of sum_usage res of
           None \<Rightarrow> Inl KeyError
         | Some sbundle \<Rightarrow>
            (let total' = get_default sbundle date_key 0 in
             if total' = 0 then Inl ZeroDivisionError
             else
               (let usage_ratio = usage_value / total' in
                if cost_model cfg = ''CHARGE_BACK'' then
                  (case map_of db_usage_item db_billing_hourly_rate of
                     None \<Rightarrow> Inl KeyError
                   | Some rate \<Rightarrow> Inr (py_round (usage_ratio * rate) db_round_decimals))
                else Inr (py_round (100 * usage_ratio) db_round_decimals))))
      else Inr (py_round usage_value db_round_decimals))"

record histogram_out =
  usage_export :: "ResUsageType \<Rightarrow> (string \<times> real \<times> string) list"
     \<comment> \<open>the records \<^verbatim>\<open>{"stack", "usage", "date"}\<close> of each resource type\<close>
  periodic_gauges :: "(string \<times> ResUsageType \<times> real) list"
     \<comment> \<open>\<^verbatim>\<open>PROMETHEUS_PERIODIC_USAGE_EXPORTERS[period]\<close>: the values set\<close>

fun export_items ::
  "Config \<Rightarrow> sum_usage_per_type_date \<Rightarrow> string \<Rightarrow> ResUsageType \<Rightarrow> string \<Rightarrow> (string \<times> real) list
     \<Rightarrow> (string \<times> real) list \<Rightarrow> histogram_out \<Rightarrow> error option \<times> histogram_out" where
  "export_items cfg sum_usage today res date_key db_usage_item [] out = (None, out)"
| "export_items cfg sum_usage today res date_key db_usage_item ((db, usage_value) # rest) out =
     (if db \<noteq> db_billing_hourly_rate then
        (case usage_cost_of cfg sum_usage res date_key db_usage_item usage_value of
           Inl e \<Rightarrow> (Some e, out)
         | Inr usage_cost \<Rightarrow>
             export_items cfg sum_usage today res date_key db_usage_item rest
               (out\<lparr>usage_export := (usage_export out)
                       (res := usage_export out res @ [(db, usage_cost, date_key)]),
                    periodic_gauges := periodic_gauges out @
                       (if today = date_key then [(db, res, usage_cost)] else [])\<rparr>))
      else export_items cfg sum_usage today res date_key db_usage_item rest out)"

fun export_dates ::
  "Config \<Rightarrow> sum_usage_per_type_date \<Rightarrow> string \<Rightarrow> ResUsageType
     \<Rightarrow> (string \<times> (string \<times> real) list) list \<Rightarrow> histogram_out \<Rightarrow> error option \<times> histogram_out" where
  "export_dates cfg sum_usage today res [] out = (None, out)"
| "export_dates cfg sum_usage today res ((date_key, db_usage_item) # rest) out =
     (case export_items cfg sum_usage today res date_key db_usage_item db_usage_item out of
        (Some e, out') \<Rightarrow> (Some e, out')
      | (None, out') \<Rightarrow> export_dates cfg sum_usage today res rest out')"

fun export_types ::
  "Config \<Rightarrow> sum_usage_per_type_date \<Rightarrow> string \<Rightarrow> usage_per_type_date \<Rightarrow> histogram_out
     \<Rightarrow> error option \<times> histogram_out" where
  "export_types cfg sum_usage today [] out = (None, out)"
| "export_types cfg sum_usage today ((res, usage_data_bundle) # rest) out =
     (case export_dates cfg sum_usage today res usage_data_bundle out of
        (Some e, out') \<Rightarrow> (Some e, out')
      | (None, out') \<Rightarrow> export_types cfg sum_usage today rest out')"

definition dump_histogram_analytics ::
  "Config \<Rightarrow> (string \<Rightarrow> usage_by_date \<times> usage_by_date) \<Rightarrow> string \<Rightarrow> string list
     \<Rightarrow> error option \<times> histogram_out" where
  \<comment> \<open>\<open>today\<close> is \<^verbatim>\<open>Rrd.get_date_group(now_gmtime, period)\<close>. The two files are written
      after the loops: with \<open>Some e\<close> in the first component no file is written\<close>
  "dump_histogram_analytics cfg histogram_data today dbfiles =
     (case collect_all histogram_data dbfiles of
        (usage, sum_usage) \<Rightarrow>
          export_types cfg sum_usage today usage \<lparr>usage_export = (\<lambda>res. []), periodic_gauges = []\<rparr>)"

subsection \<open>Predicates used in the statements\<close>

definition true_health_condition :: "Condition \<Rightarrow> bool" where
  \<comment> \<open>a condition that one of the six tests of \<^verbatim>\<open>extract_nodes\<close> accepts\<close>
  "true_health_condition c =
     (status c = ''True'' \<and>
      type c \<in> {''Ready'', ''KernelDeadlock'', ''NetworkUnavailable'', ''OutOfDisk'',
                 ''MemoryPressure'', ''DiskPressure''})"

definition has_metrics :: "Pod \<Rightarrow> bool" where
  \<comment> \<open>\<^verbatim>\<open>hasattr(pod, 'cpuUsage') and hasattr(pod, 'memUsage')\<close>\<close>
  "has_metrics p = (Pod.cpuUsage p \<noteq> None \<and> Pod.memUsage p \<noteq> None)"

definition pod_cpu :: "Pod \<Rightarrow> real" where
  \<comment> \<open>the cpu usage a pod brings to the totals: its own if it reports metrics, else none\<close>
  "pod_cpu p = (case (Pod.cpuUsage p, Pod.memUsage p) of (Some c, Some m) \<Rightarrow> c | _ \<Rightarrow> 0)"

definition pod_mem :: "Pod \<Rightarrow> real" where
  "pod_mem p = (case (Pod.cpuUsage p, Pod.memUsage p) of (Some c, Some m) \<Rightarrow> m | _ \<Rightarrow> 0)"

definition namespace_missing :: "K8sUsage \<Rightarrow> Pod \<Rightarrow> bool" where
  \<comment> \<open>the namespace of the pod is not a key of \<^verbatim>\<open>nsResUsage\<close>\<close>
  "namespace_missing k p = (map_of (nsResUsage k) (namespace p) = None)"

definition node_missing :: "K8sUsage \<Rightarrow> Pod \<Rightarrow> bool" where
  \<comment> \<open>the node name of the pod is \<^verbatim>\<open>None\<close> or not a key of \<^verbatim>\<open>nodes\<close>\<close>
  "node_missing k p = (case nodeName p of None \<Rightarrow> True | Some n \<Rightarrow> map_of (nodes k) n = None)"

definition unresolved :: "K8sUsage \<Rightarrow> Pod \<Rightarrow> bool" where
  \<comment> \<open>a pod that reports metrics and for which one of the two subscripts has no key\<close>
  "unresolved k p = (has_metrics p \<and> (namespace_missing k p \<or> node_missing k p))"

definition add_usage :: "real \<Rightarrow> real \<Rightarrow> ResourceUsage \<Rightarrow> ResourceUsage" where
  "add_usage c m u = u\<lparr>ResourceUsage.cpuUsage := ResourceUsage.cpuUsage u + c,
                        ResourceUsage.memUsage := ResourceUsage.memUsage u + m\<rparr>"

definition ns_cpu :: "string \<Rightarrow> Pod list \<Rightarrow> real" where
  \<comment> \<open>the cpu usage of the pods of one namespace\<close>
  "ns_cpu ns ps = sum_list (map pod_cpu (filter (\<lambda>p. namespace p = ns) ps))"

definition ns_mem :: "string \<Rightarrow> Pod list \<Rightarrow> real" where
  "ns_mem ns ps = sum_list (map pod_mem (filter (\<lambda>p. namespace p = ns) ps))"

definition taken_pods :: "K8sUsage \<Rightarrow> Pod list" where
  \<comment> \<open>the pods up to and including the first unresolved one\<close>
  "taken_pods k =
     (let ps = map snd (pods k)
      in takeWhile (\<lambda>q. \<not> unresolved k q) ps @ take 1 (dropWhile (\<lambda>q. \<not> unresolved k q) ps))"

subsection \<open>Example inputs\<close>

definition example_node :: Node where
  "example_node = new_Node\<lparr>Node.name := ''node-a'', Node.cpuCapacity := 4, Node.cpuAllocatable := 3,
     Node.memCapacity := 16000, Node.memAllocatable := 15000\<rparr>"

definition example_pod :: "string \<Rightarrow> string \<Rightarrow> string option \<Rightarrow> real \<Rightarrow> real \<Rightarrow> Pod" where
  "example_pod nm ns node c m =
     new_Pod\<lparr>Pod.name := nm @ ''.'' @ ns, namespace := ns, nodeName := node,
       Pod.state := (if node = None then ''PodNotScheduled'' else ''Ready''),
       Pod.cpuUsage := Some c, Pod.memUsage := Some m\<rparr>"

definition snapshot_unknown_node :: K8sUsage where
  "snapshot_unknown_node = new_K8sUsage\<lparr>
     nodes := [(''node-a'', example_node)],
     pods := [(''web.default'', example_pod ''web'' ''default'' (Some ''node-a'') (1 / 2) 100),
              (''job.default'', example_pod ''job'' ''default'' (Some ''node-gone'') (1 / 4) 50),
              (''db.default'', example_pod ''db'' ''default'' (Some ''node-a'') 1 200)],
     nsResUsage := [(''default'', \<lparr>cpuUsage = 0, memUsage = 0\<rparr>)]\<rparr>"

definition snapshot_unscheduled_pod :: K8sUsage where
  "snapshot_unscheduled_pod = new_K8sUsage\<lparr>
     nodes := [(''node-a'', example_node)],
     pods := [(''job.default'', example_pod ''job'' ''default'' None (1 / 4) 50),
              (''db.default'', example_pod ''db'' ''default'' (Some ''node-a'') 1 200)],
     nsResUsage := [(''default'', \<lparr>cpuUsage = 0, memUsage = 0\<rparr>)]\<rparr>"

definition snapshot_no_namespaces :: K8sUsage where
  "snapshot_no_namespaces = new_K8sUsage\<lparr>
     nodes := [(''node-a'', example_node)],
     pods := [(''web.default'', example_pod ''web'' ''default'' (Some ''node-a'') (1 / 2) 100),
              (''db.default'', example_pod ''db'' ''default'' (Some ''node-a'') 1 200)]\<rparr>"


definition snapshot_resolved :: K8sUsage where
  "snapshot_resolved = new_K8sUsage\<lparr>
     nodes := [(''node-a'', example_node)],
     pods := [(''web.default'', example_pod ''web'' ''default'' (Some ''node-a'') (1 / 2) 100),
              (''idle.default'', new_Pod\<lparr>Pod.name := ''idle.default'', namespace := ''default'',
                                   nodeName := None\<rparr>),
              (''db.default'', example_pod ''db'' ''default'' (Some ''node-a'') 1 200)],
     nsResUsage := [(''default'', \<lparr>cpuUsage = 0, memUsage = 0\<rparr>),
                    (''kube-system'', \<lparr>cpuUsage = 0, memUsage = 0\<rparr>)]\<rparr>"



definition hourly :: "rrd_fetch \<Rightarrow> int \<Rightarrow> string \<Rightarrow> RrdPeriod \<Rightarrow> trend_acc" where
  \<comment> \<open>what the loop leaves after the query at one hour\<close>
  "hourly fetch now db period = snd (trend_pass fetch now db period 3600)"



subsection \<open>The histogram export, by resource and date group\<close>

type_synonym event = "string \<times> ResUsageType \<times> string \<times> real"

definition events :: "(string \<Rightarrow> usage_by_date \<times> usage_by_date) \<Rightarrow> string list \<Rightarrow> event list" where
  \<comment> \<open>the items that the first half of \<^verbatim>\<open>dump_histogram_analytics\<close> visits, in order\<close>
  "events histogram_data dbfiles =
     concat (map (\<lambda>db. concat (map (\<lambda>res. map (\<lambda>item. (db, res, item))
                                            (res_index res (histogram_data db)))
                                 [CPU, MEMORY]))
               dbfiles)"

definition collect_event ::
  "event \<Rightarrow> usage_per_type_date \<times> sum_usage_per_type_date
     \<Rightarrow> usage_per_type_date \<times> sum_usage_per_type_date" where
  \<comment> \<open>the body of the collecting loops for one visited item\<close>
  "collect_event e = (case e of (db, res, item) \<Rightarrow> collect_usage db res item)"

definition items_of :: "usage_per_type_date \<Rightarrow> ResUsageType \<Rightarrow> string \<Rightarrow> (string \<times> real) list" where
  \<comment> \<open>\<^verbatim>\<open>usage_per_type_date[res][date_key]\<close>, empty when a key is missing\<close>
  "items_of usage res d = get_default (get_default usage res []) d []"

definition total_of :: "sum_usage_per_type_date \<Rightarrow> ResUsageType \<Rightarrow> string \<Rightarrow> real" where
  \<comment> \<open>\<^verbatim>\<open>sum_usage_per_type_date[res][date_key]\<close>, zero when a key is missing\<close>
  "total_of sum_usage res d = get_default (get_default sum_usage res []) d 0"

definition ev_match :: "ResUsageType \<Rightarrow> string \<Rightarrow> event \<Rightarrow> bool" where
  \<comment> \<open>the item is of this resource and date group and passes \<^verbatim>\<open>usage_value > 0.0\<close>\<close>
  "ev_match res d e = (case e of (db, r, d', v) \<Rightarrow> r = res \<and> d' = d \<and> 0 < v)"

definition ev_items :: "event list \<Rightarrow> ResUsageType \<Rightarrow> string \<Rightarrow> (string \<times> real) list" where
  \<comment> \<open>the databases and values kept for a resource and date group, in the order visited\<close>
  "ev_items evs res d = map (\<lambda>(db, r, d', v). (db, v)) (filter (ev_match res d) evs)"

definition not_billing :: "string \<times> real \<Rightarrow> bool" where
  \<comment> \<open>\<^verbatim>\<open>db != KOA_CONFIG.db_billing_hourly_rate\<close>\<close>
  "not_billing x = (fst x \<noteq> db_billing_hourly_rate)"

definition ev_key :: "event \<Rightarrow> string \<times> ResUsageType \<times> string" where
  \<comment> \<open>the three dictionary keys that an item is stored under\<close>
  "ev_key e = (case e of (db, r, d, v) \<Rightarrow> (db, r, d))"

definition wf_usage :: "usage_per_type_date \<Rightarrow> bool" where
  \<comment> \<open>the nested association lists are dictionaries: no key occurs twice at any level\<close>
  "wf_usage usage =
     (distinct (map fst usage) \<and>
      (\<forall>(r, bundle)\<in>set usage.
          distinct (map fst bundle) \<and> (\<forall>(d, items)\<in>set bundle. distinct (map fst items))))"

definition ev_total :: "event list \<Rightarrow> ResUsageType \<Rightarrow> string \<Rightarrow> real" where
  \<comment> \<open>the kept values of a resource and date group, summed without the billing rate\<close>
  "ev_total evs res d = sum_list (map snd (filter not_billing (ev_items evs res d)))"

definition collected :: "event list \<Rightarrow> usage_per_type_date \<times> sum_usage_per_type_date \<Rightarrow> bool" where
  \<comment> \<open>the invariant of the collecting loops after the items \<open>evs\<close>\<close>
  "collected evs st =
     (case st of (usage, sum_usage) \<Rightarrow>
        wf_usage usage \<and>
        (\<forall>res d. items_of usage res d = ev_items evs res d) \<and>
        (\<forall>res d. total_of sum_usage res d = ev_total evs res d) \<and>
        (\<forall>res d. map_of sum_usage res = None \<longrightarrow> filter not_billing (ev_items evs res d) = []))"

definition cost_records :: "(real \<Rightarrow> real) \<Rightarrow> string \<Rightarrow> (string \<times> real) list \<Rightarrow> (string \<times> real \<times> string) list" where
  \<comment> \<open>the records of one date group, for a cost that no exception interrupts\<close>
  "cost_records cost d items = map (\<lambda>(db, v). (db, cost v, d)) (filter not_billing items)"

definition entity_usage ::
  "(string \<Rightarrow> usage_by_date \<times> usage_by_date) \<Rightarrow> ResUsageType \<Rightarrow> string \<Rightarrow> string \<Rightarrow> real" where
  \<comment> \<open>the usage of a database for a date group, as far as it is above zero\<close>
  "entity_usage histogram_data res d db =
     (case map_of (res_index res (histogram_data db)) d of
        Some v \<Rightarrow> if 0 < v then v else 0
      | None \<Rightarrow> 0)"

definition summed_usage ::
  "(string \<Rightarrow> usage_by_date \<times> usage_by_date) \<Rightarrow> string list \<Rightarrow> ResUsageType \<Rightarrow> string \<Rightarrow> real" where
  \<comment> \<open>the usage of a date group summed over the databases other than the billing rate\<close>
  "summed_usage histogram_data dbfiles res d =
     sum_list (map (entity_usage histogram_data res d)
                 (filter (\<lambda>db. db \<noteq> db_billing_hourly_rate) dbfiles))"

definition records_of_date :: "string \<Rightarrow> (string \<times> real \<times> string) list \<Rightarrow> (string \<times> real \<times> string) list" where
  \<comment> \<open>the published records \<^verbatim>\<open>(stack, usage, date)\<close> of one date group\<close>
  "records_of_date d recs = filter (\<lambda>r. snd (snd r) = d) recs"

definition db_events :: "(string \<Rightarrow> usage_by_date \<times> usage_by_date) \<Rightarrow> string \<Rightarrow> event list" where
  \<comment> \<open>the items visited for one database\<close>
  "db_events histogram_data db =
     concat (map (\<lambda>res. map (\<lambda>item. (db, res, item)) (res_index res (histogram_data db)))
               [CPU, MEMORY])"

definition billing_usage ::
  "(string \<Rightarrow> usage_by_date \<times> usage_by_date) \<Rightarrow> ResUsageType \<Rightarrow> string \<Rightarrow> real" where
  \<comment> \<open>the value recorded under the billing-rate database for a date group\<close>
  "billing_usage histogram_data res d = entity_usage histogram_data res d db_billing_hourly_rate"

definition billed :: "(string \<Rightarrow> usage_by_date \<times> usage_by_date) \<Rightarrow> string list \<Rightarrow> bool" where
  \<comment> \<open>every date group with usage has a value above zero under the billing-rate database\<close>
  "billed histogram_data dbfiles =
     (\<forall>res d db. db \<in> set dbfiles \<and> db \<noteq> db_billing_hourly_rate \<and> 0 < entity_usage histogram_data res d db
        \<longrightarrow> db_billing_hourly_rate \<in> set dbfiles \<and> 0 < billing_usage histogram_data res d)"

subsection \<open>Example histogram data\<close>

definition example_histogram :: "string \<Rightarrow> usage_by_date \<times> usage_by_date" where
  \<comment> \<open>two namespaces and the billing rate, with usage on two days\<close>
  "example_histogram db =
     (if db = ''default'' then ([(''01 Jan'', 30), (''02 Jan'', 20)], [(''01 Jan'', 10), (''02 Jan'', 10)])
      else if db = ''kube-system'' then ([(''01 Jan'', 10), (''02 Jan'', 20)], [(''01 Jan'', 30), (''02 Jan'', 10)])
      else if db = ''.billing-hourly-rate'' then ([(''01 Jan'', 12), (''02 Jan'', 12)], [(''01 Jan'', 12), (''02 Jan'', 12)])
      else ([], []))"

definition histogram_unbilled_day :: "string \<Rightarrow> usage_by_date \<times> usage_by_date" where
  \<comment> \<open>the same usage, the billing rate having a sample on the second day only\<close>
  "histogram_unbilled_day db =
     (if db = ''.billing-hourly-rate'' then ([(''02 Jan'', 12)], [(''02 Jan'', 12)])
      else example_histogram db)"

definition example_dbfiles :: "string list" where
  "example_dbfiles = [''default'', ''.billing-hourly-rate'', ''kube-system'']"


section \<open>Properties\<close>

lemmas str_defs = py_slice_from_def py_slice_def py_bound_def endswith_def

lemmas int_defs = int_value_def py_int_def strip_def is_space_def unsigned_int_def is_digit_def
  digit_val_def

lemmas float_defs = scale_int_def float_times_int_def float_of_int_def float_mul_def round64_def
  nearest64_def scaled_def rne_div_def b64_val_def float_literal_def Let_def bitlen.simps

subsection \<open>Quantity decoders\<close>

lemma slice_suffix1: "py_slice_from (v @ [c]) (int (length (v @ [c])) - 1) = [c]"
  by (simp add: str_defs)

lemma slice_prefix1: "py_slice (v @ [c]) 0 (int (length (v @ [c])) - 1) = v"
  by (simp add: str_defs)

lemma slice_suffix2: "py_slice_from (v @ [c, d]) (int (length (v @ [c, d])) - 2) = [c, d]"
  by (simp add: str_defs)

lemma slice_prefix2: "py_slice (v @ [c, d]) 0 (int (length (v @ [c, d])) - 2) = v"
  by (simp add: str_defs)

lemma endswith_i: "endswith (v @ [c, CHR ''i'']) ''i''"
  by (simp add: endswith_def)

lemma decode_memory_suffix:
  "decode_memory_capacity (v @ [u, CHR ''i'']) =
     (if u = CHR ''K'' then scale_int (float_literal (10 ^ 3) 1) v
      else if u = CHR ''M'' then scale_int (float_literal (10 ^ 6) 1) v
      else if u = CHR ''G'' then scale_int (float_literal (10 ^ 9) 1) v
      else if u = CHR ''T'' then scale_int (float_literal (10 ^ 12) 1) v
      else if u = CHR ''P'' then scale_int (float_literal (10 ^ 15) 1) v
      else if u = CHR ''E'' then scale_int (float_literal (10 ^ 18) 1) v
      else Inr 0)"
  unfolding decode_memory_capacity_def Let_def
  by (simp only: endswith_i slice_suffix2 slice_prefix2 if_True split) simp

lemma decode_cpu_suffix:
  "decode_cpu_capacity (v @ [u]) =
     (if u = CHR ''n'' then scale_int (float_literal 1 (10 ^ 9)) v
      else if u = CHR ''u'' then scale_int (float_literal 1 (10 ^ 6)) v
      else if u = CHR ''m'' then scale_int (float_literal 1 (10 ^ 3)) v
      else map_sum id real_of_int (int_value (v @ [u])))"
  unfolding decode_cpu_capacity_def Let_def
  by (simp only: slice_suffix1 slice_prefix1) simp

lemma decode_cpu_empty: "decode_cpu_capacity [] = Inl ValueError"
  by (simp add: decode_cpu_capacity_def str_defs int_defs)

lemma decode_memory_128Mi: "decode_memory_capacity ''128Mi'' = Inr 128000000"
  by (simp add: decode_memory_capacity_def str_defs int_defs float_defs)

lemma decode_memory_1Ki: "decode_memory_capacity ''1Ki'' = Inr 1000"
  by (simp add: decode_memory_capacity_def str_defs int_defs float_defs)

lemma decode_cpu_500m: "decode_cpu_capacity ''500m'' = Inr (1 / 2)"
  by (simp add: decode_cpu_capacity_def str_defs int_defs float_defs)

lemma decode_cpu_250n: "decode_cpu_capacity ''250n'' = Inr (4722366482869646 / 2 ^ 74)"
  by (simp add: decode_cpu_capacity_def str_defs int_defs float_defs)

lemma decode_cpu_2: "decode_cpu_capacity ''2'' = Inr 2"
  by (simp add: decode_cpu_capacity_def str_defs int_defs)

lemma literal_2_5e_7: "b64_val (float_literal 25 (10 ^ 8)) = 4722366482869645 / 2 ^ 74"
  by (simp add: float_defs)

text \<open>
  C4, the counterexample. The double that \<^verbatim>\<open>decode_cpu_capacity("250n")\<close> returns is neither
  the double that the literal \<^verbatim>\<open>2.5e-7\<close> denotes nor the real number \<open>2.5e-7\<close>: the product
  \<^verbatim>\<open>1e-9 * 250\<close> rounds to the next double above (Python prints it as
  \<^verbatim>\<open>2.5000000000000004e-07\<close>).
\<close>

theorem decode_cpu_250n_is_not_2_5e_7:
  "decode_cpu_capacity ''250n'' \<noteq> Inr (b64_val (float_literal 25 (10 ^ 8))) \<and>
   decode_cpu_capacity ''250n'' \<noteq> Inr (25 / 10 ^ 8)"
  by (simp only: decode_cpu_250n literal_2_5e_7) simp

text \<open>
  C4. \<^verbatim>\<open>"128Mi"\<close>, \<^verbatim>\<open>"1Ki"\<close>, \<^verbatim>\<open>"500m"\<close> and \<^verbatim>\<open>"2"\<close> decode exactly to 128000000, 1000,
  0.5 and 2; \<^verbatim>\<open>"250n"\<close> decodes to the double one unit in the last place above
  \<^verbatim>\<open>2.5e-7\<close>. A memory string that ends in a letter and
  \<^verbatim>\<open>i\<close> is scaled by the float constant \<open>10 ^ 3\<close>, ..., \<open>10 ^ 18\<close> of its letter (not by
  a power of 1024) and is 0 for any other letter, without a look at the digits; a cpu string
  that ends in \<^verbatim>\<open>n\<close>, \<^verbatim>\<open>u\<close> or \<^verbatim>\<open>m\<close> is scaled by the float constant \<open>10 ^ -9\<close>,
  \<open>10 ^ -6\<close> or \<open>10 ^ -3\<close>, and any other cpu string is read as a whole number of cores.
\<close>

theorem decoders_scale_by_decimal_constants:
  "decode_memory_capacity ''128Mi'' = Inr 128000000 \<and>
   decode_memory_capacity ''1Ki'' = Inr 1000 \<and>
   decode_cpu_capacity ''500m'' = Inr (1 / 2) \<and>
   decode_cpu_capacity ''250n'' = Inr (b64_val (float_literal 25 (10 ^ 8)) + 1 / 2 ^ 74) \<and>
   decode_cpu_capacity ''2'' = Inr 2 \<and>
   (\<forall>v u. decode_memory_capacity (v @ [u, CHR ''i'']) =
      (if u = CHR ''K'' then scale_int (float_literal (10 ^ 3) 1) v
       else if u = CHR ''M'' then scale_int (float_literal (10 ^ 6) 1) v
       else if u = CHR ''G'' then scale_int (float_literal (10 ^ 9) 1) v
       else if u = CHR ''T'' then scale_int (float_literal (10 ^ 12) 1) v
       else if u = CHR ''P'' then scale_int (float_literal (10 ^ 15) 1) v
       else if u = CHR ''E'' then scale_int (float_literal (10 ^ 18) 1) v
       else Inr 0)) \<and>
   (\<forall>v u. decode_cpu_capacity (v @ [u]) =
      (if u = CHR ''n'' then scale_int (float_literal 1 (10 ^ 9)) v
       else if u = CHR ''u'' then scale_int (float_literal 1 (10 ^ 6)) v
       else if u = CHR ''m'' then scale_int (float_literal 1 (10 ^ 3)) v
       else map_sum id real_of_int (int_value (v @ [u]))))"
proof -
  have "decode_cpu_capacity ''250n'' = Inr (b64_val (float_literal 25 (10 ^ 8)) + 1 / 2 ^ 74)"
    by (simp only: decode_cpu_250n literal_2_5e_7) simp
  then show ?thesis
    using decode_memory_128Mi decode_memory_1Ki decode_cpu_500m decode_cpu_2
      decode_memory_suffix decode_cpu_suffix
    by blast
qed

text \<open>
  C5, at the failing input. \<^verbatim>\<open>decode_cpu_capacity\<close> raises \<^verbatim>\<open>ValueError\<close> on \<^verbatim>\<open>"xm"\<close>
  and on \<^verbatim>\<open>"abc"\<close>, and nothing in \<^verbatim>\<open>extract_nodes\<close> catches it: a node listing whose
  first item has the cpu capacity \<^verbatim>\<open>"xm"\<close> leaves the function with that exception, no field
  is set to zero, and neither that node nor the well-formed one after it is recorded.
\<close>

theorem malformed_quantity_aborts_extract_nodes:
  "decode_cpu_capacity ''xm'' = Inl ValueError \<and>
   decode_cpu_capacity ''abc'' = Inl ValueError \<and>
   extract_nodes new_K8sUsage
     (Some [\<lparr>NodeItem.metadata_name = ''node-a'', metadata_uid = ''uid-a'', capacity_cpu = ''xm'',
              allocatable_cpu = ''4'', capacity_memory = ''16Gi'', allocatable_memory = ''15Gi'',
              containerRuntimeVersion = ''containerd://1.7'', conditions = []\<rparr>,
            \<lparr>NodeItem.metadata_name = ''node-b'', metadata_uid = ''uid-b'', capacity_cpu = ''4'',
              allocatable_cpu = ''4'', capacity_memory = ''16Gi'', allocatable_memory = ''15Gi'',
              containerRuntimeVersion = ''containerd://1.7'', conditions = []\<rparr>])
     = (Some ValueError, new_K8sUsage)"
  by (simp add: extract_nodes_def build_node_def decode_cpu_capacity_def str_defs int_defs Let_def
      scale_int_def)

subsection \<open>Node health\<close>

lemma node_conditions_hit:
  "true_health_condition c \<Longrightarrow> Node.state (node_conditions node (c # cs)) = type c"
  unfolding true_health_condition_def by (auto simp: Let_def)

lemma node_conditions_miss:
  "\<not> true_health_condition c \<Longrightarrow>
   node_conditions node (c # cs) = node_conditions (node\<lparr>Node.message := Condition.message c\<rparr>) cs"
  unfolding true_health_condition_def by (cases "status c = ''True''") (simp_all add: Let_def)

lemma node_state_first_in_list:
  "Node.state (node_conditions node conds) =
     (case find true_health_condition conds of None \<Rightarrow> Node.state node | Some c \<Rightarrow> type c)"
proof (induction conds arbitrary: node)
  case Nil
  show ?case by simp
next
  case (Cons c cs)
  show ?case
  proof (cases "true_health_condition c")
    case True
    then show ?thesis
      using node_conditions_hit [of c node cs] by (simp del: node_conditions.simps)
  next
    case False
    have "Node.state (node_conditions node (c # cs)) =
          Node.state (node_conditions (node\<lparr>Node.message := Condition.message c\<rparr>) cs)"
      using node_conditions_miss [OF False] by simp
    also have "\<dots> = (case find true_health_condition cs of
                        None \<Rightarrow> Node.state (node\<lparr>Node.message := Condition.message c\<rparr>)
                      | Some c \<Rightarrow> type c)"
      by (rule Cons.IH)
    also have "\<dots> = (case find true_health_condition (c # cs) of
                        None \<Rightarrow> Node.state node | Some c \<Rightarrow> type c)"
      using False by (simp split: option.splits)
    finally show ?thesis .
  qed
qed

text \<open>
  C6, the counterexample. With the conditions \<^verbatim>\<open>MemoryPressure: True\<close> then
  \<^verbatim>\<open>Ready: True\<close> the node does not resolve to \<^verbatim>\<open>Ready\<close>.
\<close>

theorem memory_pressure_before_ready_is_not_ready:
  "Node.state (node_conditions new_Node
      [\<lparr>type = ''MemoryPressure'', status = ''True'', message = ''low memory''\<rparr>,
       \<lparr>type = ''Ready'', status = ''True'', message = ''kubelet is ready''\<rparr>]) \<noteq> ''Ready''"
  by (simp add: new_Node_def Let_def)

text \<open>
  C6, as amended. The state of a node is the type of the first condition, in the order of
  the list, that has the status \<^verbatim>\<open>True\<close> and one of the six types; the order of the six
  tests plays no part. With no such condition the state stays what it was, for a new node
  the empty string. So \<^verbatim>\<open>KernelDeadlock\<close> before \<^verbatim>\<open>Ready\<close> gives \<^verbatim>\<open>KernelDeadlock\<close>,
  \<^verbatim>\<open>MemoryPressure\<close> before \<^verbatim>\<open>Ready\<close> gives \<^verbatim>\<open>MemoryPressure\<close>, and a false
  \<^verbatim>\<open>NetworkUnavailable\<close> before \<^verbatim>\<open>Ready\<close> gives \<^verbatim>\<open>Ready\<close>.
\<close>

theorem node_state_is_first_true_condition_in_list_order:
  "(\<forall>node conds. Node.state (node_conditions node conds) =
     (case find true_health_condition conds of None \<Rightarrow> Node.state node | Some c \<Rightarrow> type c)) \<and>
   Node.state new_Node = [] \<and>
   Node.state (node_conditions new_Node
      [\<lparr>type = ''KernelDeadlock'', status = ''True'', message = ''deadlock''\<rparr>,
       \<lparr>type = ''Ready'', status = ''True'', message = ''kubelet is ready''\<rparr>]) = ''KernelDeadlock'' \<and>
   Node.state (node_conditions new_Node
      [\<lparr>type = ''MemoryPressure'', status = ''True'', message = ''low memory''\<rparr>,
       \<lparr>type = ''Ready'', status = ''True'', message = ''kubelet is ready''\<rparr>]) = ''MemoryPressure'' \<and>
   Node.state (node_conditions new_Node
      [\<lparr>type = ''NetworkUnavailable'', status = ''False'', message = ''route ok''\<rparr>,
       \<lparr>type = ''Ready'', status = ''True'', message = ''kubelet is ready''\<rparr>]) = ''Ready''"
proof -
  have "Node.state new_Node = []" by (simp add: new_Node_def)
  then show ?thesis
    by (simp add: node_state_first_in_list true_health_condition_def del: node_conditions.simps)
qed

subsection \<open>Startup\<close>



subsection \<open>Consolidation\<close>

lemma consolidate_pod_no_metrics:
  "\<not> has_metrics p \<Longrightarrow> consolidate_pod k p = (None, k)"
  by (auto simp: consolidate_pod_def has_metrics_def split: option.splits)

lemma consolidate_pod_namespace_missing:
  "has_metrics p \<Longrightarrow> namespace_missing k p \<Longrightarrow>
   consolidate_pod k p = (Some KeyError, k\<lparr>cpuUsedByPods := cpuUsedByPods k + pod_cpu p\<rparr>)"
  by (auto simp: consolidate_pod_def has_metrics_def namespace_missing_def pod_cpu_def Let_def
      split: option.splits)

lemma consolidate_pod_node_missing:
  "has_metrics p \<Longrightarrow> map_of (nsResUsage k) (namespace p) = Some u \<Longrightarrow> node_missing k p \<Longrightarrow>
   consolidate_pod k p =
     (Some KeyError,
      k\<lparr>cpuUsedByPods := cpuUsedByPods k + pod_cpu p,
        nsResUsage := AList.update (namespace p) (add_usage (pod_cpu p) (pod_mem p) u) (nsResUsage k),
        memUsedByPods := memUsedByPods k + pod_mem p\<rparr>)"
  by (auto simp: consolidate_pod_def has_metrics_def node_missing_def pod_cpu_def pod_mem_def
      add_usage_def Let_def split: option.splits)

lemma consolidate_pod_resolved:
  "has_metrics p \<Longrightarrow> map_of (nsResUsage k) (namespace p) = Some u \<Longrightarrow> nodeName p = Some nn \<Longrightarrow>
   map_of (nodes k) nn = Some node \<Longrightarrow>
   consolidate_pod k p =
     (None,
      k\<lparr>cpuUsedByPods := cpuUsedByPods k + pod_cpu p,
        nsResUsage := AList.update (namespace p) (add_usage (pod_cpu p) (pod_mem p) u) (nsResUsage k),
        memUsedByPods := memUsedByPods k + pod_mem p,
        nodes := AList.update nn (node\<lparr>podsRunning := podsRunning node @ [p]\<rparr>) (nodes k)\<rparr>)"
  by (auto simp: consolidate_pod_def has_metrics_def pod_cpu_def pod_mem_def
      add_usage_def Let_def split: option.splits)


lemma add_usage_zero [simp]: "add_usage 0 0 u = u"
  by (simp add: add_usage_def)

lemma map_option_add_usage_zero [simp]: "map_option (add_usage 0 0) m = m"
  by (cases m) simp_all

lemma add_usage_add: "add_usage a b (add_usage c d u) = add_usage (c + a) (d + b) u"
  by (simp add: add_usage_def add.assoc)

lemma pod_cpu_no_metrics: "\<not> has_metrics p \<Longrightarrow> pod_cpu p = 0"
  by (auto simp: has_metrics_def pod_cpu_def split: option.splits)

lemma pod_mem_no_metrics: "\<not> has_metrics p \<Longrightarrow> pod_mem p = 0"
  by (auto simp: has_metrics_def pod_mem_def split: option.splits)

lemma consolidate_pod_cases:
  obtains
    (no_metrics) "\<not> has_metrics p" "consolidate_pod k p = (None, k)"
  | (no_namespace) "has_metrics p" "namespace_missing k p"
      "consolidate_pod k p = (Some KeyError, k\<lparr>cpuUsedByPods := cpuUsedByPods k + pod_cpu p\<rparr>)"
  | (no_node) u where "has_metrics p" "map_of (nsResUsage k) (namespace p) = Some u" "node_missing k p"
      "consolidate_pod k p =
         (Some KeyError,
          k\<lparr>cpuUsedByPods := cpuUsedByPods k + pod_cpu p,
            nsResUsage := AList.update (namespace p) (add_usage (pod_cpu p) (pod_mem p) u) (nsResUsage k),
            memUsedByPods := memUsedByPods k + pod_mem p\<rparr>)"
  | (resolved) u nn node where "has_metrics p" "map_of (nsResUsage k) (namespace p) = Some u"
      "nodeName p = Some nn" "map_of (nodes k) nn = Some node"
      "consolidate_pod k p =
         (None,
          k\<lparr>cpuUsedByPods := cpuUsedByPods k + pod_cpu p,
            nsResUsage := AList.update (namespace p) (add_usage (pod_cpu p) (pod_mem p) u) (nsResUsage k),
            memUsedByPods := memUsedByPods k + pod_mem p,
            nodes := AList.update nn (node\<lparr>podsRunning := podsRunning node @ [p]\<rparr>) (nodes k)\<rparr>)"
proof (cases "has_metrics p")
  case False
  then show ?thesis using no_metrics consolidate_pod_no_metrics by blast
next
  case hm: True
  show ?thesis
  proof (cases "map_of (nsResUsage k) (namespace p)")
    case None
    then have "namespace_missing k p" by (simp add: namespace_missing_def)
    then show ?thesis using no_namespace hm consolidate_pod_namespace_missing by blast
  next
    case (Some u)
    show ?thesis
    proof (cases "node_missing k p")
      case True
      then show ?thesis using no_node hm Some consolidate_pod_node_missing by blast
    next
      case False
      then obtain nn node where "nodeName p = Some nn" "map_of (nodes k) nn = Some node"
        by (auto simp: node_missing_def split: option.splits)
      then show ?thesis using resolved hm Some consolidate_pod_resolved by blast
    qed
  qed
qed

lemma consolidate_pod_error:
  "fst (consolidate_pod k p) = (if unresolved k p then Some KeyError else None)"
  by (cases p k rule: consolidate_pod_cases)
     (auto simp: unresolved_def namespace_missing_def node_missing_def)

lemma consolidate_pod_frame:
  assumes "consolidate_pod k p = (r, k')"
  shows "pods k' = pods k"
    and "K8sUsage.cpuCapacity k' = K8sUsage.cpuCapacity k"
    and "K8sUsage.memCapacity k' = K8sUsage.memCapacity k"
    and "K8sUsage.cpuAllocatable k' = K8sUsage.cpuAllocatable k"
    and "K8sUsage.memAllocatable k' = K8sUsage.memAllocatable k"
    and "map_of (nsResUsage k') x = None \<longleftrightarrow> map_of (nsResUsage k) x = None"
    and "map_of (nodes k') y = None \<longleftrightarrow> map_of (nodes k) y = None"
proof -
  show "pods k' = pods k"
    using assms by (cases p k rule: consolidate_pod_cases) auto
  show "K8sUsage.cpuCapacity k' = K8sUsage.cpuCapacity k"
    using assms by (cases p k rule: consolidate_pod_cases) auto
  show "K8sUsage.memCapacity k' = K8sUsage.memCapacity k"
    using assms by (cases p k rule: consolidate_pod_cases) auto
  show "K8sUsage.cpuAllocatable k' = K8sUsage.cpuAllocatable k"
    using assms by (cases p k rule: consolidate_pod_cases) auto
  show "K8sUsage.memAllocatable k' = K8sUsage.memAllocatable k"
    using assms by (cases p k rule: consolidate_pod_cases) auto
  show "map_of (nsResUsage k') x = None \<longleftrightarrow> map_of (nsResUsage k) x = None"
    using assms by (cases p k rule: consolidate_pod_cases) (auto simp: update_conv' split: if_splits)
  show "map_of (nodes k') y = None \<longleftrightarrow> map_of (nodes k) y = None"
    using assms by (cases p k rule: consolidate_pod_cases) (auto simp: update_conv' split: if_splits)
qed

lemma consolidate_pod_unresolved_frame:
  "consolidate_pod k p = (r, k') \<Longrightarrow> unresolved k' q = unresolved k q"
  using consolidate_pod_frame(6,7) [of k p r k']
  by (simp add: unresolved_def namespace_missing_def node_missing_def split: option.splits)

lemma consolidate_pod_totals:
  assumes "consolidate_pod k p = (r, k')"
  shows "cpuUsedByPods k' = cpuUsedByPods k + pod_cpu p"
    and "memUsedByPods k' = memUsedByPods k + (if namespace_missing k p then 0 else pod_mem p)"
    and "map_of (nsResUsage k') ns =
           map_option (add_usage (ns_cpu ns [p]) (ns_mem ns [p])) (map_of (nsResUsage k) ns)"
proof -
  show "cpuUsedByPods k' = cpuUsedByPods k + pod_cpu p"
    using assms by (cases p k rule: consolidate_pod_cases) (auto simp: pod_cpu_no_metrics)
  show "memUsedByPods k' = memUsedByPods k + (if namespace_missing k p then 0 else pod_mem p)"
    using assms
    by (cases p k rule: consolidate_pod_cases) (auto simp: pod_mem_no_metrics namespace_missing_def)
  show "map_of (nsResUsage k') ns =
           map_option (add_usage (ns_cpu ns [p]) (ns_mem ns [p])) (map_of (nsResUsage k) ns)"
    using assms
    by (cases p k rule: consolidate_pod_cases)
       (auto simp: update_conv' ns_cpu_def ns_mem_def pod_cpu_no_metrics pod_mem_no_metrics
          namespace_missing_def option.map_ident)
qed


lemma ns_cpu_Cons: "ns_cpu ns (q # ps) = ns_cpu ns [q] + ns_cpu ns ps"
  by (simp add: ns_cpu_def)

lemma ns_mem_Cons: "ns_mem ns (q # ps) = ns_mem ns [q] + ns_mem ns ps"
  by (simp add: ns_mem_def)

lemma resolved_pod_mem:
  "\<not> unresolved k q \<Longrightarrow> (if namespace_missing k q then 0 else pod_mem q) = pod_mem q"
  by (auto simp: unresolved_def pod_mem_no_metrics)

lemma consolidate_pods_frame:
  assumes "consolidate_pods k ps = (r, k')"
  shows "pods k' = pods k \<and>
         K8sUsage.cpuCapacity k' = K8sUsage.cpuCapacity k \<and>
         K8sUsage.memCapacity k' = K8sUsage.memCapacity k \<and>
         K8sUsage.cpuAllocatable k' = K8sUsage.cpuAllocatable k \<and>
         K8sUsage.memAllocatable k' = K8sUsage.memAllocatable k"
  using assms
proof (induction ps arbitrary: k)
  case Nil
  then show ?case by simp
next
  case (Cons q ps)
  obtain r1 k1 where step: "consolidate_pod k q = (r1, k1)" by (cases "consolidate_pod k q")
  note fr = consolidate_pod_frame(1-5) [OF step]
  show ?case
  proof (cases r1)
    case None
    with Cons.prems step have "consolidate_pods k1 ps = (r, k')" by simp
    from Cons.IH [OF this] fr show ?thesis by simp
  next
    case (Some e)
    with Cons.prems step have "k' = k1" by simp
    with fr show ?thesis by simp
  qed
qed

lemma consolidate_pods_run:
  assumes "\<forall>q\<in>set pre. \<not> unresolved k q" and "consolidate_pods k (pre @ [b]) = (r, k')"
  shows "r = (if unresolved k b then Some KeyError else None) \<and>
         cpuUsedByPods k' = cpuUsedByPods k + sum_list (map pod_cpu (pre @ [b])) \<and>
         memUsedByPods k' = memUsedByPods k + sum_list (map pod_mem pre)
                              + (if namespace_missing k b then 0 else pod_mem b) \<and>
         (\<forall>ns. map_of (nsResUsage k') ns =
                 map_option (add_usage (ns_cpu ns (pre @ [b])) (ns_mem ns (pre @ [b])))
                   (map_of (nsResUsage k) ns))"
  using assms
proof (induction pre arbitrary: k)
  case Nil
  obtain r1 k1 where step: "consolidate_pod k b = (r1, k1)" by (cases "consolidate_pod k b")
  with Nil.prems have eq: "r = r1" "k' = k1" by (cases r1; simp)+
  have "r1 = (if unresolved k b then Some KeyError else None)"
    using consolidate_pod_error [of k b] step by simp
  with consolidate_pod_totals [OF step] eq show ?case by simp
next
  case (Cons q pre)
  from Cons.prems have q: "\<not> unresolved k q" and rest: "\<forall>x\<in>set pre. \<not> unresolved k x" by simp_all
  obtain r1 k1 where step: "consolidate_pod k q = (r1, k1)" by (cases "consolidate_pod k q")
  have r1: "r1 = None" using consolidate_pod_error [of k q] step q by simp
  with Cons.prems step have run: "consolidate_pods k1 (pre @ [b]) = (r, k')" by simp
  have same: "\<And>x. unresolved k1 x = unresolved k x"
    using consolidate_pod_unresolved_frame [OF step] by simp
  have miss: "namespace_missing k1 b = namespace_missing k b"
    using consolidate_pod_frame(6) [OF step] by (simp add: namespace_missing_def)
  from rest same have "\<forall>x\<in>set pre. \<not> unresolved k1 x" by simp
  from Cons.IH [OF this run]
  have ih: "r = (if unresolved k1 b then Some KeyError else None)"
    "cpuUsedByPods k' = cpuUsedByPods k1 + sum_list (map pod_cpu (pre @ [b]))"
    "memUsedByPods k' = memUsedByPods k1 + sum_list (map pod_mem pre)
                              + (if namespace_missing k1 b then 0 else pod_mem b)"
    "\<And>ns. map_of (nsResUsage k') ns =
                 map_option (add_usage (ns_cpu ns (pre @ [b])) (ns_mem ns (pre @ [b])))
                   (map_of (nsResUsage k1) ns)"
    by blast+
  note t = consolidate_pod_totals [OF step]
  have "r = (if unresolved k b then Some KeyError else None)" using ih(1) same by simp
  moreover have "cpuUsedByPods k' = cpuUsedByPods k + sum_list (map pod_cpu ((q # pre) @ [b]))"
    using ih(2) t(1) by simp
  moreover have "memUsedByPods k' = memUsedByPods k + sum_list (map pod_mem (q # pre))
                              + (if namespace_missing k b then 0 else pod_mem b)"
    using ih(3) t(2) miss resolved_pod_mem [OF q] by simp
  moreover have "\<forall>ns. map_of (nsResUsage k') ns =
                 map_option (add_usage (ns_cpu ns ((q # pre) @ [b])) (ns_mem ns ((q # pre) @ [b])))
                   (map_of (nsResUsage k) ns)"
  proof
    fix ns
    have "map_of (nsResUsage k') ns =
            map_option (add_usage (ns_cpu ns (pre @ [b])) (ns_mem ns (pre @ [b])))
              (map_option (add_usage (ns_cpu ns [q]) (ns_mem ns [q])) (map_of (nsResUsage k) ns))"
      using ih(4) [of ns] t(3) [of ns] by simp
    also have "\<dots> = map_option (add_usage (ns_cpu ns ((q # pre) @ [b])) (ns_mem ns ((q # pre) @ [b])))
                        (map_of (nsResUsage k) ns)"
      using ns_cpu_Cons [of ns q "pre @ [b]"] ns_mem_Cons [of ns q "pre @ [b]"]
      by (cases "map_of (nsResUsage k) ns") (simp_all add: add_usage_add)
    finally show "map_of (nsResUsage k') ns =
                 map_option (add_usage (ns_cpu ns ((q # pre) @ [b])) (ns_mem ns ((q # pre) @ [b])))
                   (map_of (nsResUsage k) ns)" .
  qed
  ultimately show ?case by blast
qed

lemma consolidate_pods_stop:
  assumes "\<forall>q\<in>set pre. \<not> unresolved k q" and "unresolved k b"
  shows "consolidate_pods k (pre @ b # post) = consolidate_pods k (pre @ [b])"
  using assms
proof (induction pre arbitrary: k)
  case Nil
  obtain r1 k1 where step: "consolidate_pod k b = (r1, k1)" by (cases "consolidate_pod k b")
  have "r1 = Some KeyError" using consolidate_pod_error [of k b] step Nil.prems by simp
  with step show ?case by simp
next
  case (Cons q pre)
  from Cons.prems have q: "\<not> unresolved k q" and rest: "\<forall>x\<in>set pre. \<not> unresolved k x" by simp_all
  obtain r1 k1 where step: "consolidate_pod k q = (r1, k1)" by (cases "consolidate_pod k q")
  have r1: "r1 = None" using consolidate_pod_error [of k q] step q by simp
  have same: "\<And>x. unresolved k1 x = unresolved k x"
    using consolidate_pod_unresolved_frame [OF step] by simp
  have "consolidate_pods k1 (pre @ b # post) = consolidate_pods k1 (pre @ [b])"
    using Cons.IH [of k1] rest Cons.prems(2) same by simp
  with step r1 show ?case by simp
qed


lemma unresolved_reset [simp]:
  "unresolved (k\<lparr>cpuUsedByPods := a, memUsedByPods := b\<rparr>) q = unresolved k q"
  by (simp add: unresolved_def namespace_missing_def node_missing_def split: option.splits)

lemma namespace_missing_reset [simp]:
  "namespace_missing (k\<lparr>cpuUsedByPods := a, memUsedByPods := b\<rparr>) q = namespace_missing k q"
  by (simp add: namespace_missing_def)

text \<open>
  C10. A pod with usage metrics whose namespace is not a key of \<^verbatim>\<open>nsResUsage\<close>, or whose
  node name is \<^verbatim>\<open>None\<close> or not a key of \<^verbatim>\<open>nodes\<close>, makes the consolidation raise
  \<^verbatim>\<open>KeyError\<close>. The four capacity and allocatable totals are then what they were before
  the call, and the totals of the pods and of the namespaces hold the usage of the pods up
  to and including the first such pod (\<open>taken_pods\<close>), and of no pod after it.
\<close>

theorem consolidate_raises_KeyError_on_missing_key:
  assumes "p \<in> set (map snd (pods k))" and "unresolved k p"
  shows "fst (consolidate_ns_usage k) = Some KeyError \<and>
         K8sUsage.cpuCapacity (snd (consolidate_ns_usage k)) = K8sUsage.cpuCapacity k \<and>
         K8sUsage.memCapacity (snd (consolidate_ns_usage k)) = K8sUsage.memCapacity k \<and>
         K8sUsage.cpuAllocatable (snd (consolidate_ns_usage k)) = K8sUsage.cpuAllocatable k \<and>
         K8sUsage.memAllocatable (snd (consolidate_ns_usage k)) = K8sUsage.memAllocatable k \<and>
         cpuUsedByPods (snd (consolidate_ns_usage k)) = sum_list (map pod_cpu (taken_pods k)) \<and>
         (\<forall>ns. map_of (nsResUsage (snd (consolidate_ns_usage k))) ns =
                 map_option (add_usage (ns_cpu ns (taken_pods k)) (ns_mem ns (taken_pods k)))
                   (map_of (nsResUsage k) ns))"
proof -
  define ps where "ps = map snd (pods k)"
  define pre where "pre = takeWhile (\<lambda>q. \<not> unresolved k q) ps"
  define k0 where "k0 = k\<lparr>cpuUsedByPods := 0, memUsedByPods := 0\<rparr>"
  from assms have "dropWhile (\<lambda>q. \<not> unresolved k q) ps \<noteq> []"
    unfolding ps_def by (auto simp: dropWhile_eq_Nil_conv)
  then obtain b post where dw: "dropWhile (\<lambda>q. \<not> unresolved k q) ps = b # post"
    by (cases "dropWhile (\<lambda>q. \<not> unresolved k q) ps") auto
  have b: "unresolved k b"
    using hd_dropWhile [of "\<lambda>q. \<not> unresolved k q" ps] dw by simp
  have split: "ps = pre @ b # post"
    using takeWhile_dropWhile_id [of "\<lambda>q. \<not> unresolved k q" ps] dw pre_def by simp
  have taken: "taken_pods k = pre @ [b]"
    by (simp add: taken_pods_def Let_def ps_def [symmetric] pre_def dw)
  have pre0: "\<forall>q\<in>set pre. \<not> unresolved k0 q"
    unfolding pre_def k0_def by (auto dest: set_takeWhileD)
  have b0: "unresolved k0 b" using b by (simp add: k0_def)
  obtain r k' where run: "consolidate_pods k0 (pre @ [b]) = (r, k')"
    by (cases "consolidate_pods k0 (pre @ [b])")
  have all: "consolidate_pods k0 ps = (r, k')"
    using consolidate_pods_stop [OF pre0 b0, of post] run split by simp
  from consolidate_pods_run [OF pre0 run] b0
  have r: "r = Some KeyError"
    and cpu: "cpuUsedByPods k' = cpuUsedByPods k0 + sum_list (map pod_cpu (pre @ [b]))"
    and ns: "\<And>ns. map_of (nsResUsage k') ns =
                 map_option (add_usage (ns_cpu ns (pre @ [b])) (ns_mem ns (pre @ [b])))
                   (map_of (nsResUsage k0) ns)"
    by simp_all
  have res: "consolidate_ns_usage k = (Some KeyError, k')"
    using all r by (simp add: consolidate_ns_usage_def Let_def k0_def ps_def)
  from consolidate_pods_frame [OF run] res cpu ns taken show ?thesis
    by (simp add: k0_def)
qed


lemmas example_defs = example_node_def example_pod_def snapshot_unknown_node_def
  snapshot_unscheduled_pod_def snapshot_no_namespaces_def new_K8sUsage_def new_Pod_def new_Node_def

text \<open>
  C1, at the failing input. Three pods report metrics in the namespace \<^verbatim>\<open>default\<close>; the
  second names a node that is not in the node map. The consolidation raises \<^verbatim>\<open>KeyError\<close>
  at that pod: the pod is not skipped (its usage is already in the totals of the cluster and
  of its namespace), the third pod is never counted, and no capacity is summed.
\<close>

theorem unknown_node_aborts_consolidation:
  "fst (consolidate_ns_usage snapshot_unknown_node) = Some KeyError \<and>
   map_of (nsResUsage (snd (consolidate_ns_usage snapshot_unknown_node))) ''default''
     = Some \<lparr>cpuUsage = 3 / 4, memUsage = 150\<rparr> \<and>
   cpuUsedByPods (snd (consolidate_ns_usage snapshot_unknown_node)) = 3 / 4 \<and>
   K8sUsage.cpuCapacity (snd (consolidate_ns_usage snapshot_unknown_node)) = 0 \<and>
   K8sUsage.memCapacity (snd (consolidate_ns_usage snapshot_unknown_node)) = 0"
  by (simp add: consolidate_ns_usage_def consolidate_pod_def example_defs Let_def)

theorem consolidate_raises_KeyError_on_missing_key_witness:
  "fst (consolidate_ns_usage snapshot_no_namespaces) = Some KeyError \<and>
   K8sUsage.cpuCapacity (snd (consolidate_ns_usage snapshot_no_namespaces)) = 0 \<and>
   K8sUsage.cpuAllocatable (snd (consolidate_ns_usage snapshot_no_namespaces)) = 0 \<and>
   cpuUsedByPods (snd (consolidate_ns_usage snapshot_no_namespaces)) = 1 / 2 \<and>
   fst (consolidate_ns_usage snapshot_unscheduled_pod) = Some KeyError \<and>
   K8sUsage.cpuCapacity (snd (consolidate_ns_usage snapshot_unscheduled_pod)) = 0 \<and>
   K8sUsage.cpuAllocatable (snd (consolidate_ns_usage snapshot_unscheduled_pod)) = 0 \<and>
   cpuUsedByPods (snd (consolidate_ns_usage snapshot_unscheduled_pod)) = 1 / 4"
proof -
  have a1: "example_pod ''web'' ''default'' (Some ''node-a'') (1 / 2) 100
              \<in> set (map snd (pods snapshot_no_namespaces))"
    by (simp add: snapshot_no_namespaces_def)
  have a2: "unresolved snapshot_no_namespaces (example_pod ''web'' ''default'' (Some ''node-a'') (1 / 2) 100)"
    by (simp add: unresolved_def has_metrics_def namespace_missing_def example_defs)
  have t1: "taken_pods snapshot_no_namespaces = [example_pod ''web'' ''default'' (Some ''node-a'') (1 / 2) 100]"
    using a2 by (simp add: taken_pods_def snapshot_no_namespaces_def)
  have b1: "example_pod ''job'' ''default'' None (1 / 4) 50
              \<in> set (map snd (pods snapshot_unscheduled_pod))"
    by (simp add: snapshot_unscheduled_pod_def)
  have b2: "unresolved snapshot_unscheduled_pod (example_pod ''job'' ''default'' None (1 / 4) 50)"
    by (simp add: unresolved_def has_metrics_def node_missing_def example_defs)
  have t2: "taken_pods snapshot_unscheduled_pod = [example_pod ''job'' ''default'' None (1 / 4) 50]"
    using b2 by (simp add: taken_pods_def snapshot_unscheduled_pod_def)
  have c: "pod_cpu (example_pod ''web'' ''default'' (Some ''node-a'') (1 / 2) 100) = 1 / 2"
     "pod_cpu (example_pod ''job'' ''default'' None (1 / 4) 50) = 1 / 4"
    by (simp_all add: pod_cpu_def example_pod_def)
  have z: "K8sUsage.cpuCapacity snapshot_no_namespaces = 0"
      "K8sUsage.cpuAllocatable snapshot_no_namespaces = 0"
      "K8sUsage.cpuCapacity snapshot_unscheduled_pod = 0"
      "K8sUsage.cpuAllocatable snapshot_unscheduled_pod = 0"
    by (simp_all add: example_defs)
  from consolidate_raises_KeyError_on_missing_key [OF a1 a2]
    consolidate_raises_KeyError_on_missing_key [OF b1 b2] show ?thesis
    by (simp add: t1 t2 c z)
qed


lemma update_same_field:
  "map_of al x = Some v \<Longrightarrow> f v' = f v \<Longrightarrow> map (\<lambda>x. f (snd x)) (AList.update x v' al) = map (\<lambda>x. f (snd x)) al"
  by (induction al) (auto split: if_splits)

lemma consolidate_pod_node_field:
  assumes "\<And>n ps. f (n\<lparr>podsRunning := ps\<rparr>) = f n" and "consolidate_pod k p = (r, k')"
  shows "map (\<lambda>x. f (snd x)) (nodes k') = map (\<lambda>x. f (snd x)) (nodes k)"
  using assms(2)
  by (cases p k rule: consolidate_pod_cases) (auto simp: update_same_field assms(1))

lemma consolidate_pods_node_field:
  assumes "\<And>n ps. f (n\<lparr>podsRunning := ps\<rparr>) = f n" and "consolidate_pods k ps = (r, k')"
  shows "map (\<lambda>x. f (snd x)) (nodes k') = map (\<lambda>x. f (snd x)) (nodes k)"
  using assms(2)
proof (induction ps arbitrary: k)
  case Nil
  then show ?case by simp
next
  case (Cons q ps)
  obtain r1 k1 where step: "consolidate_pod k q = (r1, k1)" by (cases "consolidate_pod k q")
  note one = consolidate_pod_node_field [of f, OF assms(1) step]
  show ?case
  proof (cases r1)
    case None
    with Cons.prems step have "consolidate_pods k1 ps = (r, k')" by simp
    from Cons.IH [OF this] have "map (\<lambda>x. f (snd x)) (nodes k') = map (\<lambda>x. f (snd x)) (nodes k1)" .
    then show ?thesis using one by (rule trans)
  next
    case (Some e)
    with Cons.prems step have "k' = k1" by simp
    with one show ?thesis by simp
  qed
qed

lemma consolidate_pods_node_sum:
  assumes "\<And>n ps. f (n\<lparr>podsRunning := ps\<rparr>) = f n" and "consolidate_pods k ps = (r, k')"
  shows "sum_list (map f (map snd (nodes k'))) = sum_list (map f (map snd (nodes k)))"
  using consolidate_pods_node_field [of f, OF assms] by (simp add: comp_def)

lemma fold_capacity:
  "fold (\<lambda>node s. s\<lparr>K8sUsage.cpuCapacity := K8sUsage.cpuCapacity s + Node.cpuCapacity node,
                      K8sUsage.memCapacity := K8sUsage.memCapacity s + Node.memCapacity node\<rparr>) ns s
   = s\<lparr>K8sUsage.cpuCapacity := K8sUsage.cpuCapacity s + sum_list (map Node.cpuCapacity ns),
        K8sUsage.memCapacity := K8sUsage.memCapacity s + sum_list (map Node.memCapacity ns)\<rparr>"
  by (induction ns arbitrary: s) (simp_all add: add.assoc)

lemma fold_allocatable:
  "fold (\<lambda>node s. s\<lparr>K8sUsage.cpuAllocatable := K8sUsage.cpuAllocatable s + Node.cpuAllocatable node,
                      K8sUsage.memAllocatable := K8sUsage.memAllocatable s + Node.memAllocatable node\<rparr>) ns s
   = s\<lparr>K8sUsage.cpuAllocatable := K8sUsage.cpuAllocatable s + sum_list (map Node.cpuAllocatable ns),
        K8sUsage.memAllocatable := K8sUsage.memAllocatable s + sum_list (map Node.memAllocatable ns)\<rparr>"
  by (induction ns arbitrary: s) (simp_all add: add.assoc)

lemma consolidate_pods_all_resolved:
  assumes "\<forall>q\<in>set ps. \<not> unresolved k q" and "consolidate_pods k ps = (r, k')"
  shows "r = None \<and>
         cpuUsedByPods k' = cpuUsedByPods k + sum_list (map pod_cpu ps) \<and>
         memUsedByPods k' = memUsedByPods k + sum_list (map pod_mem ps) \<and>
         (\<forall>ns. map_of (nsResUsage k') ns =
                 map_option (add_usage (ns_cpu ns ps) (ns_mem ns ps)) (map_of (nsResUsage k) ns))"
proof (cases ps rule: rev_cases)
  case Nil
  with assms show ?thesis by (simp add: ns_cpu_def ns_mem_def)
next
  case (snoc pre b)
  with assms have pre: "\<forall>q\<in>set pre. \<not> unresolved k q" and b: "\<not> unresolved k b"
    and run: "consolidate_pods k (pre @ [b]) = (r, k')" by simp_all
  from consolidate_pods_run [OF pre run] b resolved_pod_mem [OF b] snoc show ?thesis
    by simp
qed

text \<open>
  When every pod that reports metrics has its namespace in \<^verbatim>\<open>nsResUsage\<close> and its node in
  \<^verbatim>\<open>nodes\<close>, the consolidation returns, each namespace holds what it held before plus the
  usage of its pods that report metrics, the totals of the pods are the sums over all such
  pods, and each capacity total grows by the sum over the nodes.
\<close>

theorem consolidation_sums_usage_per_namespace:
  assumes "\<forall>p\<in>set (map snd (pods k)). \<not> unresolved k p"
  shows "fst (consolidate_ns_usage k) = None \<and>
         (\<forall>ns. map_of (nsResUsage (snd (consolidate_ns_usage k))) ns =
                 map_option (add_usage (ns_cpu ns (map snd (pods k))) (ns_mem ns (map snd (pods k))))
                   (map_of (nsResUsage k) ns)) \<and>
         cpuUsedByPods (snd (consolidate_ns_usage k)) = sum_list (map pod_cpu (map snd (pods k))) \<and>
         memUsedByPods (snd (consolidate_ns_usage k)) = sum_list (map pod_mem (map snd (pods k))) \<and>
         K8sUsage.cpuCapacity (snd (consolidate_ns_usage k)) =
           K8sUsage.cpuCapacity k + sum_list (map Node.cpuCapacity (map snd (nodes k))) \<and>
         K8sUsage.memCapacity (snd (consolidate_ns_usage k)) =
           K8sUsage.memCapacity k + sum_list (map Node.memCapacity (map snd (nodes k))) \<and>
         K8sUsage.cpuAllocatable (snd (consolidate_ns_usage k)) =
           K8sUsage.cpuAllocatable k + sum_list (map Node.cpuAllocatable (map snd (nodes k))) \<and>
         K8sUsage.memAllocatable (snd (consolidate_ns_usage k)) =
           K8sUsage.memAllocatable k + sum_list (map Node.memAllocatable (map snd (nodes k)))"
proof -
  define k0 where "k0 = k\<lparr>cpuUsedByPods := 0, memUsedByPods := 0\<rparr>"
  define ps where "ps = map snd (pods k)"
  obtain r k1 where run: "consolidate_pods k0 ps = (r, k1)" by (cases "consolidate_pods k0 ps")
  from assms have res: "\<forall>q\<in>set ps. \<not> unresolved k0 q" by (simp add: k0_def ps_def)
  note ok = consolidate_pods_all_resolved [OF res run]
  note fr = consolidate_pods_frame [OF run]
  have cs: "sum_list (map Node.cpuCapacity (map snd (nodes k1))) = sum_list (map Node.cpuCapacity (map snd (nodes k0)))"
      "sum_list (map Node.memCapacity (map snd (nodes k1))) = sum_list (map Node.memCapacity (map snd (nodes k0)))"
      "sum_list (map Node.cpuAllocatable (map snd (nodes k1))) = sum_list (map Node.cpuAllocatable (map snd (nodes k0)))"
      "sum_list (map Node.memAllocatable (map snd (nodes k1))) = sum_list (map Node.memAllocatable (map snd (nodes k0)))"
    by (rule consolidate_pods_node_sum [OF _ run]; simp)+
  have r: "r = None" using ok by simp
  have eq: "consolidate_ns_usage k =
     (None, (k1\<lparr>K8sUsage.cpuCapacity := K8sUsage.cpuCapacity k1 + sum_list (map Node.cpuCapacity (map snd (nodes k1))),
                 K8sUsage.memCapacity := K8sUsage.memCapacity k1 + sum_list (map Node.memCapacity (map snd (nodes k1)))\<rparr>)
              \<lparr>K8sUsage.cpuAllocatable := K8sUsage.cpuAllocatable k1 + sum_list (map Node.cpuAllocatable (map snd (nodes k1))),
                K8sUsage.memAllocatable := K8sUsage.memAllocatable k1 + sum_list (map Node.memAllocatable (map snd (nodes k1)))\<rparr>)"
    using run r
    by (simp add: consolidate_ns_usage_def Let_def k0_def [symmetric] k0_def [THEN arg_cong, of pods, simplified]
        ps_def [symmetric] fold_capacity fold_allocatable)
  show ?thesis
    using ok fr cs by (simp add: eq k0_def ps_def)
qed

subsection \<open>The sampler\<close>

lemma round_half_even_of_int [simp]: "round_half_even (of_int r) = r"
  by (simp add: round_half_even_def)

lemma py_round_idem: "py_round (py_round x n) n = py_round x n"
  by (simp add: py_round_def)

lemma add_sample_rounded:
  "add_sample db t (py_round x db_round_decimals) (py_round y db_round_decimals)
     = RrdUpdate db t (py_round x db_round_decimals) (py_round y db_round_decimals)"
  by (simp add: add_sample_def py_round_idem)









subsection \<open>Consolidation: an example that returns\<close>

theorem consolidation_sums_usage_per_namespace_witness:
  "fst (consolidate_ns_usage snapshot_resolved) = None \<and>
   map_of (nsResUsage (snd (consolidate_ns_usage snapshot_resolved))) ''default''
     = Some \<lparr>cpuUsage = 3 / 2, memUsage = 300\<rparr> \<and>
   map_of (nsResUsage (snd (consolidate_ns_usage snapshot_resolved))) ''kube-system''
     = Some \<lparr>cpuUsage = 0, memUsage = 0\<rparr> \<and>
   cpuUsedByPods (snd (consolidate_ns_usage snapshot_resolved)) = 3 / 2 \<and>
   K8sUsage.cpuCapacity (snd (consolidate_ns_usage snapshot_resolved)) = 4"
proof -
  have h: "\<forall>p\<in>set (map snd (pods snapshot_resolved)). \<not> unresolved snapshot_resolved p"
    by (simp add: snapshot_resolved_def unresolved_def has_metrics_def namespace_missing_def
        node_missing_def example_defs)
  have v: "ns_cpu ''default'' (map snd (pods snapshot_resolved)) = 3 / 2"
    "ns_mem ''default'' (map snd (pods snapshot_resolved)) = 300"
    "ns_cpu ''kube-system'' (map snd (pods snapshot_resolved)) = 0"
    "ns_mem ''kube-system'' (map snd (pods snapshot_resolved)) = 0"
    "sum_list (map pod_cpu (map snd (pods snapshot_resolved))) = 3 / 2"
    "sum_list (map Node.cpuCapacity (map snd (nodes snapshot_resolved))) = 4"
    "K8sUsage.cpuCapacity snapshot_resolved = 0"
    "map_of (nsResUsage snapshot_resolved) ''default'' = Some \<lparr>cpuUsage = 0, memUsage = 0\<rparr>"
    "map_of (nsResUsage snapshot_resolved) ''kube-system'' = Some \<lparr>cpuUsage = 0, memUsage = 0\<rparr>"
    by (simp_all add: snapshot_resolved_def ns_cpu_def ns_mem_def pod_cpu_def pod_mem_def example_defs)
  note t = consolidation_sums_usage_per_namespace [OF h]
  from t have a: "fst (consolidate_ns_usage snapshot_resolved) = None"
    and b: "\<And>ns. map_of (nsResUsage (snd (consolidate_ns_usage snapshot_resolved))) ns =
                 map_option (add_usage (ns_cpu ns (map snd (pods snapshot_resolved)))
                               (ns_mem ns (map snd (pods snapshot_resolved))))
                   (map_of (nsResUsage snapshot_resolved) ns)"
    and c: "cpuUsedByPods (snd (consolidate_ns_usage snapshot_resolved))
              = sum_list (map pod_cpu (map snd (pods snapshot_resolved)))"
    and d: "K8sUsage.cpuCapacity (snd (consolidate_ns_usage snapshot_resolved)) =
              K8sUsage.cpuCapacity snapshot_resolved
                + sum_list (map Node.cpuCapacity (map snd (nodes snapshot_resolved)))"
    by blast+
  show ?thesis
    using a b [of "''default''"] b [of "''kube-system''"] c d
    unfolding v by (simp add: add_usage_def)
qed

subsection \<open>Trend data\<close>

lemma py_trunc_of_int [simp]: "py_trunc (of_int n) = n"
  by (simp add: py_trunc_def)

















subsection \<open>The cost models of the histogram export\<close>

lemma fold_concat_fold: "fold f (concat xss) s = fold (\<lambda>xs. fold f xs) xss s"
  by (induction xss arbitrary: s) simp_all

lemma collect_all_events:
  "collect_all histogram_data dbfiles = fold collect_event (events histogram_data dbfiles) ([], [])"
proof -
  have inner: "\<And>db res st. fold (collect_usage db res) (res_index res (histogram_data db)) st
      = fold collect_event (map (\<lambda>item. (db, res, item)) (res_index res (histogram_data db))) st"
    by (simp add: fold_map comp_def collect_event_def)
  have mid: "\<And>db st. fold (\<lambda>res. fold (collect_usage db res) (res_index res (histogram_data db))) [CPU, MEMORY] st
      = fold collect_event (concat (map (\<lambda>res. map (\<lambda>item. (db, res, item))
                                            (res_index res (histogram_data db))) [CPU, MEMORY])) st"
    by (simp add: inner)
  show ?thesis
    unfolding collect_all_def events_def fold_concat_fold fold_map comp_def mid ..
qed

lemma update_absent: "map_of al k = None \<Longrightarrow> AList.update k v al = al @ [(k, v)]"
  by (induction al) (auto split: if_splits)

lemma set_update_cases:
  "x \<in> set (AList.update k v al) \<Longrightarrow> x = (k, v) \<or> x \<in> set al"
  by (induction al) (auto split: if_splits)

lemma get_default_update:
  "get_default (AList.update k v al) k' d = (if k' = k then v else get_default al k' d)"
  by (simp add: get_default_def update_conv')

lemma get_default_mem:
  "distinct (map fst al) \<Longrightarrow> (k, v) \<in> set al \<Longrightarrow> get_default al k d = v"
  by (simp add: get_default_def)

lemma get_default_in_or_default:
  "get_default al k d = d \<or> (k, get_default al k d) \<in> set al"
  by (auto simp: get_default_def split: option.splits dest: map_of_SomeD)

lemma collect_event_skip:
  "\<not> 0 < v \<Longrightarrow> collect_event (db, res, d, v) st = st"
  by (cases st) (simp add: collect_event_def collect_usage_def)

lemma collect_event_usage:
  assumes "0 < v"
  shows "fst (collect_event (db, res, d, v) (usage, sum_usage)) =
           AList.update res (AList.update d (AList.update db v (items_of usage res d))
                               (get_default usage res [])) usage"
  using assms by (simp add: collect_event_def collect_usage_def Let_def items_of_def)

lemma collect_event_sum:
  assumes "0 < v"
  shows "snd (collect_event (db, res, d, v) (usage, sum_usage)) =
           (if db \<noteq> db_billing_hourly_rate
            then AList.update res (AList.update d (total_of sum_usage res d + v)
                                     (get_default sum_usage res [])) sum_usage
            else sum_usage)"
  using assms by (simp add: collect_event_def collect_usage_def Let_def total_of_def)

lemma items_of_collect:
  assumes "0 < v"
  shows "items_of (fst (collect_event (db, res, d, v) (usage, sum_usage))) r d' =
           (if r = res \<and> d' = d then AList.update db v (items_of usage res d)
            else items_of usage r d')"
  unfolding collect_event_usage [OF assms]
  by (simp add: items_of_def get_default_update)

lemma total_of_collect:
  assumes "0 < v"
  shows "total_of (snd (collect_event (db, res, d, v) (usage, sum_usage))) r d' =
           (if r = res \<and> d' = d \<and> db \<noteq> db_billing_hourly_rate then total_of sum_usage res d + v
            else total_of sum_usage r d')"
  unfolding collect_event_sum [OF assms]
  by (simp add: total_of_def get_default_update)

lemma sum_present_collect:
  assumes "0 < v"
  shows "map_of (snd (collect_event (db, res, d, v) (usage, sum_usage))) r = None \<longleftrightarrow>
           map_of sum_usage r = None \<and> \<not> (r = res \<and> db \<noteq> db_billing_hourly_rate)"
  unfolding collect_event_sum [OF assms]
  by (simp add: update_conv')

lemma wf_usage_bundle:
  "wf_usage usage \<Longrightarrow> distinct (map fst (get_default usage res []))"
  using get_default_in_or_default [of usage res "[]"]
  by (auto simp: wf_usage_def)

lemma wf_usage_items:
  "wf_usage usage \<Longrightarrow> distinct (map fst (items_of usage res d))"
proof -
  assume wf: "wf_usage usage"
  show ?thesis
  proof (cases "map_of usage res")
    case None
    then show ?thesis by (simp add: items_of_def get_default_def)
  next
    case (Some bdl)
    then have b: "(res, bdl) \<in> set usage" by (rule map_of_SomeD)
    show ?thesis
    proof (cases "map_of bdl d")
      case None
      with Some show ?thesis by (simp add: items_of_def get_default_def)
    next
      case (Some items)
      then have "(d, items) \<in> set bdl" by (rule map_of_SomeD)
      with wf b have "distinct (map fst items)" by (auto simp: wf_usage_def)
      with Some \<open>map_of usage res = Some bdl\<close> show ?thesis
        by (simp add: items_of_def get_default_def)
    qed
  qed
qed

lemma wf_usage_collect:
  assumes "wf_usage usage" and "0 < v"
  shows "wf_usage (fst (collect_event (db, res, d, v) (usage, sum_usage)))"
proof -
  let ?items = "AList.update db v (items_of usage res d)"
  let ?bdl = "AList.update d ?items (get_default usage res [])"
  have i: "distinct (map fst ?items)"
    using wf_usage_items [OF assms(1)] by (simp add: distinct_update)
  have b: "distinct (map fst ?bdl)"
    using wf_usage_bundle [OF assms(1)] by (simp add: distinct_update)
  have old: "\<And>x. x \<in> set (get_default usage res []) \<Longrightarrow> distinct (map fst (snd x))"
    using get_default_in_or_default [of usage res "[]"] assms(1)
    by (fastforce simp: wf_usage_def)
  have bi: "\<forall>(d', items)\<in>set ?bdl. distinct (map fst items)"
  proof (clarify)
    fix d' items assume "(d', items) \<in> set ?bdl"
    from set_update_cases [OF this] show "distinct (map fst items)"
      using i old by auto
  qed
  have "\<forall>(r, bdl)\<in>set (AList.update res ?bdl usage).
          distinct (map fst bdl) \<and> (\<forall>(d, items)\<in>set bdl. distinct (map fst items))"
  proof (clarify)
    fix r bdl assume "(r, bdl) \<in> set (AList.update res ?bdl usage)"
    from set_update_cases [OF this]
    show "distinct (map fst bdl) \<and> (\<forall>(d, items)\<in>set bdl. distinct (map fst items))"
      using b bi assms(1) by (auto simp: wf_usage_def)
  qed
  moreover have "distinct (map fst (AList.update res ?bdl usage))"
    using assms(1) by (simp add: wf_usage_def distinct_update)
  ultimately show ?thesis
    unfolding collect_event_usage [OF assms(2)] wf_usage_def by blast
qed

lemma ev_items_snoc:
  "ev_items (evs @ [(db, res, d, v)]) r d' =
     ev_items evs r d' @ (if r = res \<and> d' = d \<and> 0 < v then [(db, v)] else [])"
  by (simp add: ev_items_def ev_match_def)

lemma ev_total_snoc:
  "ev_total (evs @ [(db, res, d, v)]) r d' =
     ev_total evs r d' + (if r = res \<and> d' = d \<and> 0 < v \<and> db \<noteq> db_billing_hourly_rate then v else 0)"
  by (simp add: ev_total_def ev_items_snoc not_billing_def)

lemma ev_items_fresh:
  assumes "ev_key (db, res, d, v) \<notin> ev_key ` set evs"
  shows "map_of (ev_items evs res d) db = None"
proof -
  have "db \<notin> fst ` set (ev_items evs res d)"
  proof
    assume "db \<in> fst ` set (ev_items evs res d)"
    then obtain v' where "(db, res, d, v') \<in> set evs"
      by (auto simp: ev_items_def ev_match_def)
    then have "ev_key (db, res, d, v') \<in> ev_key ` set evs" by (rule imageI)
    with assms show False by (simp add: ev_key_def)
  qed
  then show ?thesis by (simp add: map_of_eq_None_iff)
qed

lemma collected_empty: "collected [] ([], [])"
  by (simp add: collected_def wf_usage_def items_of_def total_of_def get_default_def ev_items_def
      ev_total_def)

lemma collected_step:
  assumes inv: "collected evs st" and fresh: "ev_key e \<notin> ev_key ` set evs"
  shows "collected (evs @ [e]) (collect_event e st)"
proof -
  obtain db res d v where e: "e = (db, res, d, v)" by (cases e) auto
  obtain usage sum_usage where st: "st = (usage, sum_usage)" by (cases st)
  from inv st have wf: "wf_usage usage"
    and it: "\<And>r d'. items_of usage r d' = ev_items evs r d'"
    and tot: "\<And>r d'. total_of sum_usage r d' = ev_total evs r d'"
    and pres: "\<And>r d'. map_of sum_usage r = None \<Longrightarrow> filter not_billing (ev_items evs r d') = []"
    by (simp_all add: collected_def)
  show ?thesis
  proof (cases "0 < v")
    case False
    then have same: "collect_event e (usage, sum_usage) = (usage, sum_usage)"
      using e collect_event_skip by simp
    from False have "\<And>r d'. ev_items (evs @ [e]) r d' = ev_items evs r d'"
      and "\<And>r d'. ev_total (evs @ [e]) r d' = ev_total evs r d'"
      unfolding e by (simp_all add: ev_items_snoc ev_total_snoc)
    with inv show ?thesis by (simp add: st same collected_def)
  next
    case True
    obtain usage' sum' where st': "collect_event e st = (usage', sum')"
      by (cases "collect_event e st")
    have u': "usage' = fst (collect_event (db, res, d, v) (usage, sum_usage))"
      and s': "sum' = snd (collect_event (db, res, d, v) (usage, sum_usage))"
      using st' e st by simp_all
    have app: "AList.update db v (ev_items evs res d) = ev_items evs res d @ [(db, v)]"
      using ev_items_fresh [of db res d v evs] fresh e by (simp add: update_absent)
    have 1: "wf_usage usage'" unfolding u' using wf True by (rule wf_usage_collect)
    have 2: "\<And>r d'. items_of usage' r d' = ev_items (evs @ [e]) r d'"
      unfolding u' e using True by (simp add: items_of_collect it app ev_items_snoc)
    have 3: "\<And>r d'. total_of sum' r d' = ev_total (evs @ [e]) r d'"
      unfolding s' e using True by (simp add: total_of_collect tot ev_total_snoc)
    have 4: "\<And>r d'. map_of sum' r = None \<Longrightarrow> filter not_billing (ev_items (evs @ [e]) r d') = []"
      unfolding s' e using True pres
      by (auto simp: sum_present_collect ev_items_snoc not_billing_def)
    from 1 2 3 4 show ?thesis unfolding st' collected_def by simp
  qed
qed

lemma collected_fold:
  "distinct (map ev_key evs) \<Longrightarrow> collected evs (fold collect_event evs ([], []))"
proof (induction evs rule: rev_induct)
  case Nil
  show ?case by (simp add: collected_empty)
next
  case (snoc e evs)
  then have "collected evs (fold collect_event evs ([], []))" and "ev_key e \<notin> ev_key ` set evs"
    by simp_all
  from collected_step [OF this] show ?case by simp
qed

lemma export_items_ok:
  assumes "\<forall>(db, v)\<in>set its. db \<noteq> db_billing_hourly_rate \<longrightarrow>
             usage_cost_of cfg sum_usage res d items v = Inr (cost v)"
  shows "fst (export_items cfg sum_usage today res d items its out) = None \<and>
         (\<forall>r. usage_export (snd (export_items cfg sum_usage today res d items its out)) r =
           usage_export out r @ (if r = res then cost_records cost d its else []))"
  using assms
proof (induction its arbitrary: out)
  case Nil
  show ?case by (simp add: cost_records_def)
next
  case (Cons x its)
  obtain db v where x: "x = (db, v)" by (cases x)
  from Cons.prems have rest: "\<forall>(db, v)\<in>set its. db \<noteq> db_billing_hourly_rate \<longrightarrow>
             usage_cost_of cfg sum_usage res d items v = Inr (cost v)" by simp
  show ?case
  proof (cases "db = db_billing_hourly_rate")
    case True
    with Cons.IH [OF rest, of out] x show ?thesis
      by (simp add: cost_records_def not_billing_def)
  next
    case False
    with Cons.prems x have c: "usage_cost_of cfg sum_usage res d items v = Inr (cost v)" by simp
    let ?out = "out\<lparr>usage_export := (usage_export out)
                       (res := usage_export out res @ [(db, cost v, d)]),
                    periodic_gauges := periodic_gauges out @
                       (if today = d then [(db, res, cost v)] else [])\<rparr>"
    from Cons.IH [OF rest, of ?out] False x c show ?thesis
      by (simp add: cost_records_def not_billing_def)
  qed
qed

lemma export_dates_ok:
  assumes "\<forall>(d, items)\<in>set bdl. \<forall>(db, v)\<in>set items. db \<noteq> db_billing_hourly_rate \<longrightarrow>
             usage_cost_of cfg sum_usage res d items v = Inr (cost d v)"
  shows "fst (export_dates cfg sum_usage today res bdl out) = None \<and>
         (\<forall>r. usage_export (snd (export_dates cfg sum_usage today res bdl out)) r =
           usage_export out r @
             (if r = res then concat (map (\<lambda>(d, items). cost_records (cost d) d items) bdl) else []))"
  using assms
proof (induction bdl arbitrary: out)
  case Nil
  show ?case by simp
next
  case (Cons x bdl)
  obtain d items where x: "x = (d, items)" by (cases x)
  from Cons.prems x have one: "\<forall>(db, v)\<in>set items. db \<noteq> db_billing_hourly_rate \<longrightarrow>
             usage_cost_of cfg sum_usage res d items v = Inr (cost d v)"
    and rest: "\<forall>(d, items)\<in>set bdl. \<forall>(db, v)\<in>set items. db \<noteq> db_billing_hourly_rate \<longrightarrow>
             usage_cost_of cfg sum_usage res d items v = Inr (cost d v)"
    by simp_all
  obtain r out1 where step: "export_items cfg sum_usage today res d items items out = (r, out1)"
    by (cases "export_items cfg sum_usage today res d items items out")
  from export_items_ok [OF one, of today out] step
  have r: "r = None"
    and o1: "\<And>r. usage_export out1 r =
               usage_export out r @ (if r = res then cost_records (cost d) d items else [])"
    by simp_all
  from Cons.IH [OF rest, of out1] x step r o1 show ?case by simp
qed

lemma export_types_ok:
  assumes "\<forall>(res, bdl)\<in>set usage. \<forall>(d, items)\<in>set bdl. \<forall>(db, v)\<in>set items.
             db \<noteq> db_billing_hourly_rate \<longrightarrow>
             usage_cost_of cfg sum_usage res d items v = Inr (cost res d v)"
  shows "fst (export_types cfg sum_usage today usage out) = None \<and>
         (\<forall>r. usage_export (snd (export_types cfg sum_usage today usage out)) r =
           usage_export out r @
             concat (map (\<lambda>(res, bdl). if res = r
                            then concat (map (\<lambda>(d, items). cost_records (cost res d) d items) bdl)
                            else []) usage))"
  using assms
proof (induction usage arbitrary: out)
  case Nil
  show ?case by simp
next
  case (Cons x usage)
  obtain res bdl where x: "x = (res, bdl)" by (cases x)
  from Cons.prems x have one: "\<forall>(d, items)\<in>set bdl. \<forall>(db, v)\<in>set items.
             db \<noteq> db_billing_hourly_rate \<longrightarrow>
             usage_cost_of cfg sum_usage res d items v = Inr (cost res d v)"
    and rest: "\<forall>(res, bdl)\<in>set usage. \<forall>(d, items)\<in>set bdl. \<forall>(db, v)\<in>set items.
             db \<noteq> db_billing_hourly_rate \<longrightarrow>
             usage_cost_of cfg sum_usage res d items v = Inr (cost res d v)"
    by simp_all
  obtain r out1 where step: "export_dates cfg sum_usage today res bdl out = (r, out1)"
    by (cases "export_dates cfg sum_usage today res bdl out")
  from export_dates_ok [of bdl cfg sum_usage res "cost res", OF one, of today out] step
  have r: "r = None"
    and o1: "\<And>r. usage_export out1 r = usage_export out r @
              (if r = res then concat (map (\<lambda>(d, items). cost_records (cost res d) d items) bdl) else [])"
    by simp_all
  from Cons.IH [OF rest, of out1] x step r o1 show ?case by simp
qed

lemma concat_single_key:
  "distinct (map fst al) \<Longrightarrow>
   concat (map (\<lambda>(k, v). if k = x then f v else []) al) =
     (case map_of al x of None \<Rightarrow> [] | Some v \<Rightarrow> f v)"
proof (induction al)
  case Nil
  show ?case by simp
next
  case (Cons a al)
  obtain k v where a: "a = (k, v)" by (cases a)
  show ?case
  proof (cases "k = x")
    case True
    with Cons.prems a have "x \<notin> fst ` set al" by simp
    then have "concat (map (\<lambda>(k, v). if k = x then f v else []) al) = []"
      by (induction al) auto
    with True a show ?thesis by simp
  next
    case False
    with Cons a show ?thesis by simp
  qed
qed

lemma entity_usage_nonneg: "0 \<le> entity_usage histogram_data res d db"
  by (simp add: entity_usage_def split: option.splits)

lemma filter_date_items:
  "distinct (map fst its) \<Longrightarrow>
   map snd (filter (\<lambda>x. fst x = d \<and> 0 < snd x) its) =
     (case map_of its d of Some v \<Rightarrow> if 0 < v then [v] else [] | None \<Rightarrow> [])"
proof (induction its)
  case Nil
  show ?case by simp
next
  case (Cons a its)
  obtain k v where a: "a = (k, v)" by (cases a)
  show ?case
  proof (cases "k = d")
    case True
    with Cons.prems a have "d \<notin> fst ` set its" by simp
    then have "filter (\<lambda>x. fst x = d \<and> 0 < snd x) its = []"
      by (auto simp: filter_empty_conv)
    with True a show ?thesis by simp
  next
    case False
    with Cons a show ?thesis by simp
  qed
qed

lemma events_Cons:
  "events histogram_data (db # dbs) = db_events histogram_data db @ events histogram_data dbs"
  by (simp add: events_def db_events_def)

lemma ev_items_Nil: "ev_items [] res d = []"
  by (simp add: ev_items_def)

lemma ev_items_append: "ev_items (xs @ ys) res d = ev_items xs res d @ ev_items ys res d"
  by (simp add: ev_items_def)

lemma ev_items_map:
  "ev_items (map (\<lambda>item. (db, r, item)) its) res d =
     (if r = res then map (\<lambda>v. (db, v)) (map snd (filter (\<lambda>x. fst x = d \<and> 0 < snd x) its)) else [])"
  by (induction its) (auto simp: ev_items_def ev_match_def)

lemma ev_items_db:
  assumes "\<And>res. distinct (map fst (res_index res (histogram_data db)))"
  shows "ev_items (db_events histogram_data db) res d =
           (if 0 < entity_usage histogram_data res d db
            then [(db, entity_usage histogram_data res d db)] else [])"
proof -
  have "ev_items (db_events histogram_data db) res d =
          map (\<lambda>v. (db, v))
            (map snd (filter (\<lambda>x. fst x = d \<and> 0 < snd x) (res_index res (histogram_data db))))"
    by (cases res) (simp_all add: db_events_def ev_items_append ev_items_map ev_items_Nil)
  also have "\<dots> = (if 0 < entity_usage histogram_data res d db
            then [(db, entity_usage histogram_data res d db)] else [])"
    by (simp add: filter_date_items [OF assms] entity_usage_def split: option.splits)
  finally show ?thesis .
qed

lemma ev_items_events:
  assumes "\<And>db res. distinct (map fst (res_index res (histogram_data db)))"
  shows "ev_items (events histogram_data dbfiles) res d =
           map (\<lambda>db. (db, entity_usage histogram_data res d db))
             (filter (\<lambda>db. 0 < entity_usage histogram_data res d db) dbfiles)"
proof (induction dbfiles)
  case Nil
  show ?case by (simp add: events_def ev_items_def)
next
  case (Cons db dbs)
  then show ?case
    by (simp add: events_Cons ev_items_append ev_items_db [where histogram_data = histogram_data, OF assms])
qed

lemma ev_key_db_events: "e \<in> set (db_events histogram_data db) \<Longrightarrow> fst (ev_key e) = db"
  by (auto simp: db_events_def ev_key_def)

lemma ev_key_events: "e \<in> set (events histogram_data dbs) \<Longrightarrow> fst (ev_key e) \<in> set dbs"
  by (auto simp: events_def ev_key_def)

lemma distinct_db_events:
  assumes "\<And>res. distinct (map fst (res_index res (histogram_data db)))"
  shows "distinct (map ev_key (db_events histogram_data db))"
proof -
  have m: "\<And>res. map ev_key (map (\<lambda>item. (db, res, item)) (res_index res (histogram_data db)))
      = map (\<lambda>d. (db, res, d)) (map fst (res_index res (histogram_data db)))"
    by (simp add: ev_key_def comp_def case_prod_beta)
  have d: "\<And>res. distinct (map (\<lambda>d. (db, res, d)) (map fst (res_index res (histogram_data db))))"
    using assms by (simp add: distinct_map inj_on_def)
  show ?thesis
    unfolding db_events_def using d [of CPU] d [of MEMORY]
    by (auto simp: m simp del: map_map)
qed

lemma distinct_events:
  assumes "distinct dbfiles" and "\<And>db res. distinct (map fst (res_index res (histogram_data db)))"
  shows "distinct (map ev_key (events histogram_data dbfiles))"
  using assms(1)
proof (induction dbfiles)
  case Nil
  show ?case by (simp add: events_def)
next
  case (Cons db dbs)
  have "ev_key ` set (db_events histogram_data db) \<inter> ev_key ` set (events histogram_data dbs) = {}"
  proof (rule ccontr)
    assume "ev_key ` set (db_events histogram_data db) \<inter> ev_key ` set (events histogram_data dbs) \<noteq> {}"
    then obtain k where "k \<in> ev_key ` set (db_events histogram_data db)"
      and "k \<in> ev_key ` set (events histogram_data dbs)" by blast
    then obtain e1 e2 where "e1 \<in> set (db_events histogram_data db)"
      "e2 \<in> set (events histogram_data dbs)" "ev_key e1 = ev_key e2" by force
    with ev_key_db_events [of e1] ev_key_events [of e2] have "db \<in> set dbs" by metis
    with Cons.prems show False by simp
  qed
  with Cons distinct_db_events [of histogram_data db, OF assms(2)] show ?case
    by (simp add: events_Cons)
qed

lemma wf_usage_items_of:
  assumes "wf_usage usage" and "(res, bdl) \<in> set usage" and "(d, items) \<in> set bdl"
  shows "items_of usage res d = items"
proof -
  from assms(1,2) have b: "get_default usage res [] = bdl"
    by (simp add: wf_usage_def get_default_mem)
  from assms have "distinct (map fst bdl)" by (auto simp: wf_usage_def)
  with assms(3) have "get_default bdl d [] = items" by (simp add: get_default_mem)
  with b show ?thesis by (simp add: items_of_def)
qed

lemma sum_list_positive: "xs \<noteq> [] \<Longrightarrow> \<forall>x\<in>set xs. 0 < x \<Longrightarrow> 0 < sum_list (xs :: real list)"
proof (induction xs)
  case Nil
  then show ?case by simp
next
  case (Cons x xs)
  show ?case
  proof (cases "xs = []")
    case True
    with Cons.prems show ?thesis by simp
  next
    case False
    with Cons have "0 < sum_list xs" by simp
    with Cons.prems show ?thesis by simp
  qed
qed

lemma ev_items_positive: "x \<in> set (ev_items evs res d) \<Longrightarrow> 0 < snd x"
  by (auto simp: ev_items_def ev_match_def)

lemma ev_total_positive:
  assumes "x \<in> set (ev_items evs res d)" and "not_billing x"
  shows "0 < ev_total evs res d"
proof -
  from assms have "map snd (filter not_billing (ev_items evs res d)) \<noteq> []"
    by (auto simp: filter_empty_conv)
  moreover have "\<forall>v\<in>set (map snd (filter not_billing (ev_items evs res d))). 0 < v"
    using ev_items_positive by fastforce
  ultimately show ?thesis unfolding ev_total_def by (rule sum_list_positive)
qed

lemma collected_sum_lookup:
  assumes "collected evs (usage, sum_usage)" and "x \<in> set (ev_items evs res d)" and "not_billing x"
  obtains sb where "map_of sum_usage res = Some sb" and "get_default sb d 0 = ev_total evs res d"
proof -
  from assms(2,3) have ne: "filter not_billing (ev_items evs res d) \<noteq> []"
    by (auto simp: filter_empty_conv)
  with assms(1) have "map_of sum_usage res \<noteq> None" by (auto simp: collected_def)
  then obtain sb where sb: "map_of sum_usage res = Some sb" by auto
  from assms(1) have "total_of sum_usage res d = ev_total evs res d" by (simp add: collected_def)
  with sb have "get_default sb d 0 = ev_total evs res d"
    by (simp add: total_of_def get_default_def)
  with sb that show ?thesis by blast
qed


lemma records_of_date_cost_records:
  "records_of_date d (cost_records c d' items) = (if d' = d then cost_records c d' items else [])"
  by (auto simp: records_of_date_def cost_records_def filter_empty_conv filter_id_conv)

lemma records_of_date_bundle:
  assumes "distinct (map fst bdl)"
  shows "records_of_date d (concat (map (\<lambda>(d', items). cost_records (cost d') d' items) bdl)) =
           cost_records (cost d) d (get_default bdl d [])"
proof -
  have "records_of_date d (concat (map (\<lambda>(d', items). cost_records (cost d') d' items) bdl)) =
          concat (map (\<lambda>(d', items). if d' = d then cost_records (cost d) d items else []) bdl)"
    unfolding records_of_date_def filter_concat map_map
    by (rule arg_cong [where f = concat], rule map_cong)
       (auto simp: records_of_date_cost_records [unfolded records_of_date_def])
  also have "\<dots> = (case map_of bdl d of None \<Rightarrow> [] | Some items \<Rightarrow> cost_records (cost d) d items)"
    by (rule concat_single_key [OF assms])
  also have "\<dots> = cost_records (cost d) d (get_default bdl d [])"
    by (simp add: get_default_def cost_records_def split: option.splits)
  finally show ?thesis .
qed

lemma records_of_date_usage:
  assumes "wf_usage usage"
  shows "records_of_date d
           (concat (map (\<lambda>(r, bdl). if r = res
                          then concat (map (\<lambda>(d', items). cost_records (cost r d') d' items) bdl)
                          else []) usage)) =
         cost_records (cost res d) d (items_of usage res d)"
proof -
  have "concat (map (\<lambda>(r, bdl). if r = res
                          then concat (map (\<lambda>(d', items). cost_records (cost r d') d' items) bdl)
                          else []) usage) =
        concat (map (\<lambda>(r, bdl). if r = res
                          then concat (map (\<lambda>(d', items). cost_records (cost res d') d' items) bdl)
                          else []) usage)"
    by (rule arg_cong [where f = concat], rule map_cong) auto
  also have "\<dots> = (case map_of usage res of None \<Rightarrow> []
                     | Some bdl \<Rightarrow> concat (map (\<lambda>(d', items). cost_records (cost res d') d' items) bdl))"
    using assms by (intro concat_single_key) (simp add: wf_usage_def)
  finally have eq: "concat (map (\<lambda>(r, bdl). if r = res
                          then concat (map (\<lambda>(d', items). cost_records (cost r d') d' items) bdl)
                          else []) usage) =
      (case map_of usage res of None \<Rightarrow> []
                     | Some bdl \<Rightarrow> concat (map (\<lambda>(d', items). cost_records (cost res d') d' items) bdl))" .
  show ?thesis
  proof (cases "map_of usage res")
    case None
    then show ?thesis
      unfolding eq by (simp add: records_of_date_def items_of_def get_default_def cost_records_def)
  next
    case (Some bdl)
    then have "(res, bdl) \<in> set usage" by (rule map_of_SomeD)
    with assms have "distinct (map fst bdl)" by (auto simp: wf_usage_def)
    from records_of_date_bundle [OF this, of d "cost res"] Some show ?thesis
      unfolding eq by (simp add: items_of_def get_default_def)
  qed
qed





lemma sum_list_filter_positive:
  "\<forall>x. 0 \<le> (f x :: real) \<Longrightarrow>
   sum_list (map f (filter (\<lambda>x. P x \<and> 0 < f x) xs)) = sum_list (map f (filter P xs))"
proof (induction xs)
  case Nil
  show ?case by simp
next
  case (Cons x xs)
  from Cons.prems have "0 \<le> f x" by blast
  then have "\<not> 0 < f x \<Longrightarrow> f x = 0" by linarith
  with Cons show ?case by auto
qed

lemma ev_total_events:
  assumes "\<And>db res. distinct (map fst (res_index res (histogram_data db)))"
  shows "ev_total (events histogram_data dbfiles) res d = summed_usage histogram_data dbfiles res d"
proof -
  have "ev_total (events histogram_data dbfiles) res d =
          sum_list (map (entity_usage histogram_data res d)
            (filter (\<lambda>db. db \<noteq> db_billing_hourly_rate \<and> 0 < entity_usage histogram_data res d db) dbfiles))"
    unfolding ev_total_def ev_items_events [where histogram_data = histogram_data, OF assms]
      filter_map comp_def not_billing_def
    by (simp add: comp_def conj_commute)
  also have "\<dots> = summed_usage histogram_data dbfiles res d"
    unfolding summed_usage_def
    by (rule sum_list_filter_positive) (simp add: entity_usage_nonneg)
  finally show ?thesis .
qed

lemma cost_records_events:
  assumes "\<And>db res. distinct (map fst (res_index res (histogram_data db)))"
  shows "cost_records cost d (ev_items (events histogram_data dbfiles) res d) =
           map (\<lambda>db. (db, cost (entity_usage histogram_data res d db), d))
             (filter (\<lambda>db. db \<noteq> db_billing_hourly_rate \<and> 0 < entity_usage histogram_data res d db)
                dbfiles)"
  unfolding cost_records_def ev_items_events [where histogram_data = histogram_data, OF assms]
    filter_map comp_def not_billing_def
  by (simp add: comp_def conj_commute)

lemma collect_all_collected:
  assumes "distinct dbfiles" and "\<And>db res. distinct (map fst (res_index res (histogram_data db)))"
  shows "collected (events histogram_data dbfiles) (collect_all histogram_data dbfiles)"
  unfolding collect_all_events
  by (rule collected_fold) (rule distinct_events [where histogram_data = histogram_data, OF assms])

lemma dump_histogram_records:
  assumes inv: "collected evs (usage, sum_usage)"
    and ok: "\<forall>(res, bdl)\<in>set usage. \<forall>(d, items)\<in>set bdl. \<forall>(db, v)\<in>set items.
             db \<noteq> db_billing_hourly_rate \<longrightarrow>
             usage_cost_of cfg sum_usage res d items v = Inr (cost res d v)"
  shows "fst (export_types cfg sum_usage today usage \<lparr>usage_export = (\<lambda>res. []), periodic_gauges = []\<rparr>) = None"
    and "records_of_date d
           (usage_export (snd (export_types cfg sum_usage today usage
                                 \<lparr>usage_export = (\<lambda>res. []), periodic_gauges = []\<rparr>)) res)
         = cost_records (cost res d) d (ev_items evs res d)"
proof -
  note e = export_types_ok [OF ok, of today "\<lparr>usage_export = (\<lambda>res. []), periodic_gauges = []\<rparr>"]
  from e show "fst (export_types cfg sum_usage today usage
                      \<lparr>usage_export = (\<lambda>res. []), periodic_gauges = []\<rparr>) = None" by simp
  from inv have wf: "wf_usage usage" and it: "items_of usage res d = ev_items evs res d"
    by (simp_all add: collected_def)
  from e have "usage_export (snd (export_types cfg sum_usage today usage
                                 \<lparr>usage_export = (\<lambda>res. []), periodic_gauges = []\<rparr>)) res
      = concat (map (\<lambda>(r, bdl). if r = res
                          then concat (map (\<lambda>(d', items). cost_records (cost r d') d' items) bdl)
                          else []) usage)"
    by simp
  then show "records_of_date d
           (usage_export (snd (export_types cfg sum_usage today usage
                                 \<lparr>usage_export = (\<lambda>res. []), periodic_gauges = []\<rparr>)) res)
         = cost_records (cost res d) d (ev_items evs res d)"
    using records_of_date_usage [OF wf, of d res cost] it by simp
qed


lemma example_distinct:
  "distinct example_dbfiles"
  "\<forall>db res. distinct (map fst (res_index res (example_histogram db)))"
  by (auto simp: example_dbfiles_def example_histogram_def res_index_def split: ResUsageType.splits)

lemma example_usage:
  "entity_usage example_histogram CPU ''01 Jan'' ''default'' = 30"
  "entity_usage example_histogram CPU ''01 Jan'' ''kube-system'' = 10"
  "entity_usage example_histogram CPU ''01 Jan'' ''.billing-hourly-rate'' = 12"
  "summed_usage example_histogram example_dbfiles CPU ''01 Jan'' = 40"
  by (simp_all add: entity_usage_def summed_usage_def example_histogram_def example_dbfiles_def
      res_index_def db_billing_hourly_rate_def)

lemma example_billed: "billed example_histogram example_dbfiles"
  by (auto simp: billed_def billing_usage_def entity_usage_def example_histogram_def
      example_dbfiles_def res_index_def db_billing_hourly_rate_def
      split: ResUsageType.splits option.splits if_splits)

lemma example_rounds: "py_round 75 6 = 75" "py_round 25 6 = 25" "py_round 9 6 = 9" "py_round 3 6 = 3"
  by (simp_all add: py_round_def round_half_even_def)


lemma map_of_keyed: "k \<in> set xs \<Longrightarrow> map_of (map (\<lambda>x. (x, f x)) xs) k = Some (f k)"
  by (induction xs) auto

lemma chargeback_cost:
  assumes "collected evs (usage, sum_usage)" and "cost_model cfg = ''CHARGE_BACK''"
    and "(res, bdl) \<in> set usage" and "(d, items) \<in> set bdl" and "(db, v) \<in> set items"
    and "db \<noteq> db_billing_hourly_rate"
    and "map_of (ev_items evs res d) db_billing_hourly_rate = Some rate"
  shows "usage_cost_of cfg sum_usage res d items v =
           Inr (py_round (v / ev_total evs res d * rate) db_round_decimals)"
proof -
  from assms(1) have wf: "wf_usage usage" and it: "items_of usage res d = ev_items evs res d"
    by (simp_all add: collected_def)
  from wf_usage_items_of [OF wf assms(3,4)] it have items: "items = ev_items evs res d" by simp
  with assms(5) have mem: "(db, v) \<in> set (ev_items evs res d)" by simp
  from assms(6) have nb: "not_billing (db, v)" by (simp add: not_billing_def)
  from collected_sum_lookup [OF assms(1) mem nb]
  obtain sb where sb: "map_of sum_usage res = Some sb" "get_default sb d 0 = ev_total evs res d" .
  from ev_total_positive [OF mem nb] have "ev_total evs res d \<noteq> 0" by simp
  with sb assms(2,7) items show ?thesis by (simp add: usage_cost_of_def Let_def)
qed

text \<open>
  Under the Charge-Back cost model, when every date group with usage has a value above zero
  under the billing-rate database, the export raises nothing and publishes, for each database
  other than the billing rate whose usage of the date group is above zero, the share of that
  usage in the summed usage multiplied by the value of the billing rate for the same date
  group, rounded to 6 decimals.
\<close>

theorem charge_back_costs_are_shares_of_the_billing_rate:
  assumes "cost_model cfg = ''CHARGE_BACK''" and "distinct dbfiles"
    and "\<forall>db res. distinct (map fst (res_index res (histogram_data db)))"
    and "billed histogram_data dbfiles"
  shows "fst (dump_histogram_analytics cfg histogram_data today dbfiles) = None \<and>
         (\<forall>res d.
            records_of_date d
              (usage_export (snd (dump_histogram_analytics cfg histogram_data today dbfiles)) res) =
            map (\<lambda>db. (db,
                        py_round (entity_usage histogram_data res d db
                                    / summed_usage histogram_data dbfiles res d
                                    * billing_usage histogram_data res d)
                          db_round_decimals,
                        d))
              (filter (\<lambda>db. db \<noteq> db_billing_hourly_rate \<and> 0 < entity_usage histogram_data res d db)
                 dbfiles))"
proof -
  define evs where "evs = events histogram_data dbfiles"
  obtain usage sum_usage where ca: "collect_all histogram_data dbfiles = (usage, sum_usage)"
    by (cases "collect_all histogram_data dbfiles")
  have di: "\<And>db res. distinct (map fst (res_index res (histogram_data db)))"
    using assms(3) by blast
  have inv: "collected evs (usage, sum_usage)"
    using collect_all_collected [where histogram_data = histogram_data, OF assms(2) di] ca
    by (simp add: evs_def)
  have its: "\<And>res d. ev_items evs res d =
           map (\<lambda>db. (db, entity_usage histogram_data res d db))
             (filter (\<lambda>db. 0 < entity_usage histogram_data res d db) dbfiles)"
    unfolding evs_def by (rule ev_items_events [where histogram_data = histogram_data, OF di])
  define cost where
    "cost = (\<lambda>res d v. py_round (v / ev_total evs res d * billing_usage histogram_data res d)
                         db_round_decimals)"
  have ok: "\<forall>(res, bdl)\<in>set usage. \<forall>(d, items)\<in>set bdl. \<forall>(db, v)\<in>set items.
             db \<noteq> db_billing_hourly_rate \<longrightarrow>
             usage_cost_of cfg sum_usage res d items v = Inr (cost res d v)"
  proof (clarify)
    fix res bdl d items db v
    assume m: "(res, bdl) \<in> set usage" "(d, items) \<in> set bdl" "(db, v) \<in> set items"
      and nb: "db \<noteq> db_billing_hourly_rate"
    from inv have wf: "wf_usage usage" and it: "items_of usage res d = ev_items evs res d"
      by (simp_all add: collected_def)
    from wf_usage_items_of [OF wf m(1,2)] it m(3) have "(db, v) \<in> set (ev_items evs res d)" by simp
    then have "db \<in> set dbfiles" and "0 < entity_usage histogram_data res d db"
      unfolding its by auto
    with assms(4) nb have "db_billing_hourly_rate \<in> set dbfiles"
      and "0 < billing_usage histogram_data res d"
      unfolding billed_def by blast+
    then have "db_billing_hourly_rate
                 \<in> set (filter (\<lambda>db. 0 < entity_usage histogram_data res d db) dbfiles)"
      by (simp add: billing_usage_def)
    from map_of_keyed [OF this, of "entity_usage histogram_data res d"]
    have "map_of (ev_items evs res d) db_billing_hourly_rate = Some (billing_usage histogram_data res d)"
      unfolding its billing_usage_def .
    from chargeback_cost [OF inv assms(1) m nb this]
    show "usage_cost_of cfg sum_usage res d items v = Inr (cost res d v)"
      by (simp add: cost_def)
  qed
  have dump: "dump_histogram_analytics cfg histogram_data today dbfiles =
                export_types cfg sum_usage today usage \<lparr>usage_export = (\<lambda>res. []), periodic_gauges = []\<rparr>"
    by (simp add: dump_histogram_analytics_def ca)
  have tot: "\<And>res d. ev_total evs res d = summed_usage histogram_data dbfiles res d"
    unfolding evs_def by (rule ev_total_events [where histogram_data = histogram_data, OF di])
  have recs: "\<And>res d. records_of_date d
              (usage_export (snd (dump_histogram_analytics cfg histogram_data today dbfiles)) res) =
            map (\<lambda>db. (db,
                        py_round (entity_usage histogram_data res d db
                                    / summed_usage histogram_data dbfiles res d
                                    * billing_usage histogram_data res d)
                          db_round_decimals,
                        d))
              (filter (\<lambda>db. db \<noteq> db_billing_hourly_rate \<and> 0 < entity_usage histogram_data res d db)
                 dbfiles)"
    unfolding dump dump_histogram_records(2) [OF inv ok]
    unfolding evs_def cost_records_events [where histogram_data = histogram_data, OF di]
    by (simp add: cost_def tot tot [unfolded evs_def])
  have "fst (dump_histogram_analytics cfg histogram_data today dbfiles) = None"
    unfolding dump by (rule dump_histogram_records(1) [OF inv ok])
  with recs show ?thesis by blast
qed

theorem charge_back_costs_are_shares_of_the_billing_rate_witness:
  "fst (dump_histogram_analytics \<lparr>cost_model = ''CHARGE_BACK'', billing_hourly_rate = 1 / 2, enable_debug = False\<rparr>
          example_histogram ''02 Jan'' example_dbfiles) = None \<and>
   records_of_date ''01 Jan''
     (usage_export (snd (dump_histogram_analytics
                           \<lparr>cost_model = ''CHARGE_BACK'', billing_hourly_rate = 1 / 2, enable_debug = False\<rparr>
                           example_histogram ''02 Jan'' example_dbfiles)) CPU)
     = [(''default'', 9, ''01 Jan''), (''kube-system'', 3, ''01 Jan'')]"
proof -
  let ?cfg = "\<lparr>cost_model = ''CHARGE_BACK'', billing_hourly_rate = 1 / 2, enable_debug = False\<rparr>"
  let ?recs = "records_of_date ''01 Jan''
     (usage_export (snd (dump_histogram_analytics ?cfg example_histogram ''02 Jan'' example_dbfiles)) CPU)"
  have h: "cost_model ?cfg = ''CHARGE_BACK''" by simp
  note t = charge_back_costs_are_shares_of_the_billing_rate [OF h example_distinct example_billed, of "''02 Jan''"]
  from t have a: "fst (dump_histogram_analytics ?cfg example_histogram ''02 Jan'' example_dbfiles) = None"
    by blast
  from t have "?recs
     = map (\<lambda>db. (db,
                        py_round (entity_usage example_histogram CPU ''01 Jan'' db
                                    / summed_usage example_histogram example_dbfiles CPU ''01 Jan''
                                    * billing_usage example_histogram CPU ''01 Jan'')
                          db_round_decimals,
                        ''01 Jan''))
              (filter (\<lambda>db. db \<noteq> db_billing_hourly_rate
                           \<and> 0 < entity_usage example_histogram CPU ''01 Jan'' db)
                 example_dbfiles)"
    by blast
  also have "\<dots> = [(''default'', 9, ''01 Jan''), (''kube-system'', 3, ''01 Jan'')]"
    by (simp add: example_dbfiles_def example_usage [unfolded example_dbfiles_def] billing_usage_def
        db_billing_hourly_rate_def db_round_decimals_def example_rounds)
  finally have b: "?recs = [(''default'', 9, ''01 Jan''), (''kube-system'', 3, ''01 Jan'')]" .
  from a b show ?thesis by blast
qed

lemmas histogram_eval = dump_histogram_analytics_def collect_all_def collect_usage_def get_default_def
  usage_cost_of_def res_index_def Let_def example_histogram_def histogram_unbilled_day_def example_dbfiles_def
  db_billing_hourly_rate_def db_round_decimals_def

text \<open>
  C3. Under the Charge-Back cost model, with two namespaces that have usage on two days and a
  billing rate that has a sample on the second day only, the export raises \<open>KeyError\<close> at the
  first record of the first day and publishes no record, also none for the second day.
\<close>

theorem charge_back_without_billing_sample_raises_KeyError:
  "dump_histogram_analytics \<lparr>cost_model = ''CHARGE_BACK'', billing_hourly_rate = 1 / 2, enable_debug = False\<rparr>
     histogram_unbilled_day ''02 Jan'' example_dbfiles
   = (Some KeyError, \<lparr>usage_export = (\<lambda>res. []), periodic_gauges = []\<rparr>)"
  by (simp add: histogram_eval)

end
